theory Spec2Isabelle
  imports Complex_Main
begin

section \<open>The GUI library as ImGuiSugar.h sees it\<close>

text \<open>
  ImGuiSugar.h is a header of macros over Dear ImGui. The library itself is not part of
  the header, so it is a parameter of the model: a function that, given the name of a
  library function, the arguments of the call and the library's context, yields the
  boolean the call returns (ignored for a function returning void) and the new context.
  Library functions return to their caller; what the header adds is which calls are made,
  with which arguments and in which order. Every call is therefore also appended to a log.
\<close>

datatype ImGuiCol = ImGuiCol_Button | ImGuiCol_ButtonHovered | ImGuiCol_ButtonActive

text \<open>
  An argument of a library call is either an expression the caller wrote in the macro's
  argument list (opaque, of type \<open>'a\<close>), or something the header supplies itself: an
  integer literal, a colour index, or the braced colour \<open>{r,g,b,alpha}\<close> of
  \<open>with_ButtonColored\<close>, whose alpha is the decimal literal of the source (its rounding
  to \<open>float\<close> is outside the model). The last five are what \<open>ComboEnum\<close>,
  \<open>InputDuration\<close> and \<open>InputAngle\<close> supply: a decimal literal, a string, the value of
  a comparison, a combo flag, and \<open>CalcTextSize(label).x + n\<close>, the width that the
  library computed for the caller's label plus a constant.
\<close>

datatype ImGuiComboFlags = ImGuiComboFlags_HeightLarge

datatype 'a arg = Caller 'a | IntLit int | ColIdx ImGuiCol | Vec4 'a 'a 'a real
  | RealLit real | StrLit string | BoolVal bool | ComboFlag ImGuiComboFlags
  | TextSizeX_plus 'a int

datatype 'a call = Call string "'a arg list"

record ('s, 'a) world =
  ctx :: 's
  calls :: "'a call list"

type_synonym ('s, 'a) library = "string \<Rightarrow> 'a arg list \<Rightarrow> 's \<Rightarrow> bool \<times> 's"

definition ImGui :: "('s, 'a) library \<Rightarrow> string \<Rightarrow> 'a arg list \<Rightarrow> ('s, 'a) world
    \<Rightarrow> bool \<times> ('s, 'a) world" where
  "ImGui L f xs w =
     (let (r, c) = L f xs (ctx w) in (r, \<lparr>ctx = c, calls = calls w @ [Call f xs]\<rparr>))"

text \<open>A call of a library function that returns void: only the effect remains.\<close>

definition ImGui_void :: "('s, 'a) library \<Rightarrow> string \<Rightarrow> 'a arg list \<Rightarrow> ('s, 'a) world
    \<Rightarrow> ('s, 'a) world" where
  "ImGui_void L f xs w = snd (ImGui L f xs w)"

section \<open>Control flow of C++ blocks and calls\<close>

text \<open>
  How control leaves a block: by reaching its end, by a jump out of it, by an exception,
  or not at all because the program was terminated inside it.
\<close>

datatype exit = Normal | Break | Continue | Return | Goto | Throw | Terminate

text \<open>How a call of a function ends.\<close>

datatype 'r outcome = Returned 'r | Thrown | Terminated

type_synonym ('s, 'a) stmt = "('s, 'a) world \<Rightarrow> exit \<times> ('s, 'a) world"

section \<open>RAII guard implementations\<close>

text \<open>\<open>using ScopeEndCallback = void(*)()\<close>: a pointer to a function without arguments.
  The pointer is taken to designate a function, as every use in the header does.\<close>

type_synonym ('s, 'a) ScopeEndCallback = "('s, 'a) world \<Rightarrow> unit outcome \<times> ('s, 'a) world"

record ('s, 'a) BooleanGuard =
  m_state :: bool
  m_end :: "('s, 'a) ScopeEndCallback"

text \<open>The template parameter \<open>AlwaysCallEnd\<close> is the first argument of every member.\<close>

definition BooleanGuard_ctor :: "bool \<Rightarrow> bool \<Rightarrow> ('s, 'a) ScopeEndCallback
    \<Rightarrow> ('s, 'a) BooleanGuard" where
  "BooleanGuard_ctor AlwaysCallEnd state end = \<lparr>m_state = state, m_end = end\<rparr>"

text \<open>A function declared \<open>noexcept\<close>: an exception that would leave it ends the program.\<close>

definition noexcept :: "('w \<Rightarrow> 'r outcome \<times> 'w) \<Rightarrow> 'w \<Rightarrow> 'r outcome \<times> 'w" where
  "noexcept f w = (case f w of (Thrown, w') \<Rightarrow> (Terminated, w') | (r, w') \<Rightarrow> (r, w'))"

definition BooleanGuard_dtor_body :: "bool \<Rightarrow> ('s, 'a) BooleanGuard \<Rightarrow> ('s, 'a) world
    \<Rightarrow> unit outcome \<times> ('s, 'a) world" where
  "BooleanGuard_dtor_body AlwaysCallEnd g w =
     (if AlwaysCallEnd \<or> m_state g then m_end g w else (Returned (), w))"

definition BooleanGuard_dtor :: "bool \<Rightarrow> ('s, 'a) BooleanGuard \<Rightarrow> ('s, 'a) world
    \<Rightarrow> unit outcome \<times> ('s, 'a) world" where
  "BooleanGuard_dtor AlwaysCallEnd g = noexcept (BooleanGuard_dtor_body AlwaysCallEnd g)"

definition operator_bool :: "bool \<Rightarrow> ('s, 'a) BooleanGuard \<Rightarrow> bool" where
  "operator_bool AlwaysCallEnd g = m_state g"

text \<open>The address of a library function \<open>void f()\<close>, as in \<open>&ImGui::End\<close>.\<close>

definition addr :: "('s, 'a) library \<Rightarrow> string \<Rightarrow> ('s, 'a) ScopeEndCallback" where
  "addr L f w = (Returned (), ImGui_void L f [] w)"

text \<open>For special cases, transform \<open>void(*)(int)\<close> to \<open>void(*)()\<close>.\<close>

definition PopStyleColor :: "('s, 'a) library \<Rightarrow> ('s, 'a) ScopeEndCallback" where
  "PopStyleColor L w = (Returned (), ImGui_void L ''PopStyleColor'' [IntLit 1] w)"

definition PopStyleVar :: "('s, 'a) library \<Rightarrow> ('s, 'a) ScopeEndCallback" where
  "PopStyleVar L w = (Returned (), ImGui_void L ''PopStyleVar'' [IntLit 1] w)"

text \<open>Tooltip auto triggered on hover.\<close>

definition BeginTooltip :: "('s, 'a) library \<Rightarrow> ('s, 'a) world \<Rightarrow> bool \<times> ('s, 'a) world" where
  "BeginTooltip L w =
     (let (hovered, w1) = ImGui L ''IsItemHovered'' [] w
      in if hovered then (True, ImGui_void L ''BeginTooltip'' [] w1) else (False, w1))"

section \<open>Utility macros\<close>

text \<open>Portable expression statement: calls a void function and returns true.\<close>

definition IMGUI_SUGAR_ES :: "('x \<Rightarrow> 'w \<Rightarrow> 'w) \<Rightarrow> 'x \<Rightarrow> 'w \<Rightarrow> bool \<times> 'w" where
  "IMGUI_SUGAR_ES FN args w = (let w1 = FN args w in (True, w1))"

definition IMGUI_SUGAR_ES_0 :: "('w \<Rightarrow> 'w) \<Rightarrow> 'w \<Rightarrow> bool \<times> 'w" where
  "IMGUI_SUGAR_ES_0 FN w = (let w1 = FN w in (True, w1))"

section \<open>The guarded statement forms\<close>

text \<open>
  The end of the guard's lifetime. When control leaves the scope that owns the guard (in
  any way that leaves it) the destructor runs; an exception out of the callback ends the
  program, the destructor being \<open>noexcept\<close>. When the program was terminated inside the
  scope, nothing runs any more.
\<close>

definition leave_scope :: "bool \<Rightarrow> ('s, 'a) BooleanGuard \<Rightarrow> exit \<Rightarrow> ('s, 'a) world
    \<Rightarrow> exit \<times> ('s, 'a) world" where
  "leave_scope AlwaysCallEnd g x w =
     (if x = Terminate then (Terminate, w)
      else (case BooleanGuard_dtor AlwaysCallEnd g w of
              (Returned u, w') \<Rightarrow> (x, w')
            | (Thrown, w') \<Rightarrow> (Terminate, w')
            | (Terminated, w') \<Rightarrow> (Terminate, w')))"

text \<open>
  \<open>if (const BooleanGuard<A> guard = {init, end}) body else els\<close>: the guard lives in the
  condition of the \<open>if\<close>, so until the whole statement is left, whichever branch ran.
  A use of the macro without \<open>else\<close> has \<open>skip\<close> for \<open>els\<close>.
\<close>

definition skip :: "('s, 'a) stmt" where
  "skip w = (Normal, w)"

definition if_guard :: "bool \<Rightarrow> (('s, 'a) world \<Rightarrow> bool \<times> ('s, 'a) world)
    \<Rightarrow> ('s, 'a) ScopeEndCallback \<Rightarrow> ('s, 'a) stmt \<Rightarrow> ('s, 'a) stmt \<Rightarrow> ('s, 'a) stmt" where
  "if_guard AlwaysCallEnd init end body els w =
     (let (state, w1) = init w;
          guard = BooleanGuard_ctor AlwaysCallEnd state end;
          (x, w2) = (if operator_bool AlwaysCallEnd guard then body w1 else els w1)
      in leave_scope AlwaysCallEnd guard x w2)"

text \<open>
  \<open>const BooleanGuard<A> guard = {init, end};\<close> as a declaration in a block: the guard
  lives until the enclosing block is left; \<open>rest\<close> is the remainder of that block.
\<close>

definition decl_guard :: "bool \<Rightarrow> (('s, 'a) world \<Rightarrow> bool \<times> ('s, 'a) world)
    \<Rightarrow> ('s, 'a) ScopeEndCallback \<Rightarrow> ('s, 'a) stmt \<Rightarrow> ('s, 'a) stmt" where
  "decl_guard AlwaysCallEnd init end rest w =
     (let (state, w1) = init w;
          guard = BooleanGuard_ctor AlwaysCallEnd state end;
          (x, w2) = rest w1
      in leave_scope AlwaysCallEnd guard x w2)"

type_synonym ('s, 'a) block_macro = "('s, 'a) stmt \<Rightarrow> ('s, 'a) stmt \<Rightarrow> ('s, 'a) stmt"

section \<open>Generic macros to simplify repetitive declarations\<close>

text \<open>
  The arguments are those of the header: the begin function, the end function, whether
  the call of the end function is unconditional, and the arguments of the begin function.
  The two statements that follow are the block after the macro and its \<open>else\<close>.
\<close>

definition IMGUI_SUGAR_SCOPED_BOOL :: "('x \<Rightarrow> ('s, 'a) world \<Rightarrow> bool \<times> ('s, 'a) world)
    \<Rightarrow> ('s, 'a) ScopeEndCallback \<Rightarrow> bool \<Rightarrow> 'x
    \<Rightarrow> ('s, 'a) stmt \<Rightarrow> ('s, 'a) stmt \<Rightarrow> ('s, 'a) stmt" where
  "IMGUI_SUGAR_SCOPED_BOOL BEGIN END ALWAYS args = if_guard ALWAYS (BEGIN args) END"

definition IMGUI_SUGAR_SCOPED_BOOL_0 :: "(('s, 'a) world \<Rightarrow> bool \<times> ('s, 'a) world)
    \<Rightarrow> ('s, 'a) ScopeEndCallback \<Rightarrow> bool
    \<Rightarrow> ('s, 'a) stmt \<Rightarrow> ('s, 'a) stmt \<Rightarrow> ('s, 'a) stmt" where
  "IMGUI_SUGAR_SCOPED_BOOL_0 BEGIN END ALWAYS = if_guard ALWAYS BEGIN END"

definition IMGUI_SUGAR_SCOPED_VOID_N :: "('x \<Rightarrow> ('s, 'a) world \<Rightarrow> ('s, 'a) world)
    \<Rightarrow> ('s, 'a) ScopeEndCallback \<Rightarrow> 'x
    \<Rightarrow> ('s, 'a) stmt \<Rightarrow> ('s, 'a) stmt \<Rightarrow> ('s, 'a) stmt" where
  "IMGUI_SUGAR_SCOPED_VOID_N BEGIN END args = if_guard True (IMGUI_SUGAR_ES BEGIN args) END"

definition IMGUI_SUGAR_SCOPED_VOID_0 :: "(('s, 'a) world \<Rightarrow> ('s, 'a) world)
    \<Rightarrow> ('s, 'a) ScopeEndCallback
    \<Rightarrow> ('s, 'a) stmt \<Rightarrow> ('s, 'a) stmt \<Rightarrow> ('s, 'a) stmt" where
  "IMGUI_SUGAR_SCOPED_VOID_0 BEGIN END = if_guard True (IMGUI_SUGAR_ES_0 BEGIN) END"

definition IMGUI_SUGAR_PARENT_SCOPED_VOID_N :: "('x \<Rightarrow> ('s, 'a) world \<Rightarrow> ('s, 'a) world)
    \<Rightarrow> ('s, 'a) ScopeEndCallback \<Rightarrow> 'x \<Rightarrow> ('s, 'a) stmt \<Rightarrow> ('s, 'a) stmt" where
  "IMGUI_SUGAR_PARENT_SCOPED_VOID_N BEGIN END args =
     decl_guard True (IMGUI_SUGAR_ES BEGIN args) END"

section \<open>ImGui DSL\<close>

subsection \<open>Self scoped blocks, guards managed by the parent scope, and the special cases\<close>

definition with_Window :: "('s, 'a) library \<Rightarrow> 'a arg list \<Rightarrow> ('s, 'a) block_macro" where
  "with_Window L = IMGUI_SUGAR_SCOPED_BOOL (ImGui L ''Begin'') (addr L ''End'') True"

definition with_Child :: "('s, 'a) library \<Rightarrow> 'a arg list \<Rightarrow> ('s, 'a) block_macro" where
  "with_Child L = IMGUI_SUGAR_SCOPED_BOOL (ImGui L ''BeginChild'') (addr L ''EndChild'') True"

definition with_ChildFrame :: "('s, 'a) library \<Rightarrow> 'a arg list \<Rightarrow> ('s, 'a) block_macro" where
  "with_ChildFrame L = IMGUI_SUGAR_SCOPED_BOOL (ImGui L ''BeginChildFrame'') (addr L ''EndChildFrame'') True"

definition with_Combo :: "('s, 'a) library \<Rightarrow> 'a arg list \<Rightarrow> ('s, 'a) block_macro" where
  "with_Combo L = IMGUI_SUGAR_SCOPED_BOOL (ImGui L ''BeginCombo'') (addr L ''EndCombo'') False"

definition with_ListBox :: "('s, 'a) library \<Rightarrow> 'a arg list \<Rightarrow> ('s, 'a) block_macro" where
  "with_ListBox L = IMGUI_SUGAR_SCOPED_BOOL (ImGui L ''BeginListBox'') (addr L ''EndListBox'') False"

definition with_Menu :: "('s, 'a) library \<Rightarrow> 'a arg list \<Rightarrow> ('s, 'a) block_macro" where
  "with_Menu L = IMGUI_SUGAR_SCOPED_BOOL (ImGui L ''BeginMenu'') (addr L ''EndMenu'') False"

definition with_Popup :: "('s, 'a) library \<Rightarrow> 'a arg list \<Rightarrow> ('s, 'a) block_macro" where
  "with_Popup L = IMGUI_SUGAR_SCOPED_BOOL (ImGui L ''BeginPopup'') (addr L ''EndPopup'') False"

definition with_PopupModal :: "('s, 'a) library \<Rightarrow> 'a arg list \<Rightarrow> ('s, 'a) block_macro" where
  "with_PopupModal L = IMGUI_SUGAR_SCOPED_BOOL (ImGui L ''BeginPopupModal'') (addr L ''EndPopup'') False"

definition with_PopupContextItem :: "('s, 'a) library \<Rightarrow> 'a arg list \<Rightarrow> ('s, 'a) block_macro" where
  "with_PopupContextItem L = IMGUI_SUGAR_SCOPED_BOOL (ImGui L ''BeginPopupContextItem'') (addr L ''EndPopup'') False"

definition with_PopupContextWindow :: "('s, 'a) library \<Rightarrow> 'a arg list \<Rightarrow> ('s, 'a) block_macro" where
  "with_PopupContextWindow L = IMGUI_SUGAR_SCOPED_BOOL (ImGui L ''BeginPopupContextWindow'') (addr L ''EndPopup'') False"

definition with_PopupContextVoid :: "('s, 'a) library \<Rightarrow> 'a arg list \<Rightarrow> ('s, 'a) block_macro" where
  "with_PopupContextVoid L = IMGUI_SUGAR_SCOPED_BOOL (ImGui L ''BeginPopupContextVoid'') (addr L ''EndPopup'') False"

definition with_Table :: "('s, 'a) library \<Rightarrow> 'a arg list \<Rightarrow> ('s, 'a) block_macro" where
  "with_Table L = IMGUI_SUGAR_SCOPED_BOOL (ImGui L ''BeginTable'') (addr L ''EndTable'') False"

definition with_TabBar :: "('s, 'a) library \<Rightarrow> 'a arg list \<Rightarrow> ('s, 'a) block_macro" where
  "with_TabBar L = IMGUI_SUGAR_SCOPED_BOOL (ImGui L ''BeginTabBar'') (addr L ''EndTabBar'') False"

definition with_TabItem :: "('s, 'a) library \<Rightarrow> 'a arg list \<Rightarrow> ('s, 'a) block_macro" where
  "with_TabItem L = IMGUI_SUGAR_SCOPED_BOOL (ImGui L ''BeginTabItem'') (addr L ''EndTabItem'') False"

definition with_DragDropSource :: "('s, 'a) library \<Rightarrow> 'a arg list \<Rightarrow> ('s, 'a) block_macro" where
  "with_DragDropSource L = IMGUI_SUGAR_SCOPED_BOOL (ImGui L ''BeginDragDropSource'') (addr L ''EndDragDropSource'') False"

definition with_TreeNode :: "('s, 'a) library \<Rightarrow> 'a arg list \<Rightarrow> ('s, 'a) block_macro" where
  "with_TreeNode L = IMGUI_SUGAR_SCOPED_BOOL (ImGui L ''TreeNode'') (addr L ''TreePop'') False"

definition with_TreeNodeV :: "('s, 'a) library \<Rightarrow> 'a arg list \<Rightarrow> ('s, 'a) block_macro" where
  "with_TreeNodeV L = IMGUI_SUGAR_SCOPED_BOOL (ImGui L ''TreeNodeV'') (addr L ''TreePop'') False"

definition with_TreeNodeEx :: "('s, 'a) library \<Rightarrow> 'a arg list \<Rightarrow> ('s, 'a) block_macro" where
  "with_TreeNodeEx L = IMGUI_SUGAR_SCOPED_BOOL (ImGui L ''TreeNodeEx'') (addr L ''TreePop'') False"

definition with_TreeNodeExV :: "('s, 'a) library \<Rightarrow> 'a arg list \<Rightarrow> ('s, 'a) block_macro" where
  "with_TreeNodeExV L = IMGUI_SUGAR_SCOPED_BOOL (ImGui L ''TreeNodeExV'') (addr L ''TreePop'') False"

definition with_TooltipOnHover :: "('s, 'a) library \<Rightarrow> ('s, 'a) block_macro" where
  "with_TooltipOnHover L = IMGUI_SUGAR_SCOPED_BOOL_0 (BeginTooltip L) (addr L ''EndTooltip'') False"

definition with_DragDropTarget :: "('s, 'a) library \<Rightarrow> ('s, 'a) block_macro" where
  "with_DragDropTarget L = IMGUI_SUGAR_SCOPED_BOOL_0 (ImGui L ''BeginDragDropTarget'' []) (addr L ''EndDragDropTarget'') False"

definition with_MainMenuBar :: "('s, 'a) library \<Rightarrow> ('s, 'a) block_macro" where
  "with_MainMenuBar L = IMGUI_SUGAR_SCOPED_BOOL_0 (ImGui L ''BeginMainMenuBar'' []) (addr L ''EndMainMenuBar'') False"

definition with_MenuBar :: "('s, 'a) library \<Rightarrow> ('s, 'a) block_macro" where
  "with_MenuBar L = IMGUI_SUGAR_SCOPED_BOOL_0 (ImGui L ''BeginMenuBar'' []) (addr L ''EndMenuBar'') False"

definition with_Group :: "('s, 'a) library \<Rightarrow> ('s, 'a) block_macro" where
  "with_Group L = IMGUI_SUGAR_SCOPED_VOID_0 (ImGui_void L ''BeginGroup'' []) (addr L ''EndGroup'')"

definition with_Tooltip :: "('s, 'a) library \<Rightarrow> ('s, 'a) block_macro" where
  "with_Tooltip L = IMGUI_SUGAR_SCOPED_VOID_0 (ImGui_void L ''BeginTooltip'' []) (addr L ''EndTooltip'')"

definition with_Font :: "('s, 'a) library \<Rightarrow> 'a arg list \<Rightarrow> ('s, 'a) block_macro" where
  "with_Font L = IMGUI_SUGAR_SCOPED_VOID_N (ImGui_void L ''PushFont'') (addr L ''PopFont'')"

definition with_ButtonRepeat :: "('s, 'a) library \<Rightarrow> 'a arg list \<Rightarrow> ('s, 'a) block_macro" where
  "with_ButtonRepeat L = IMGUI_SUGAR_SCOPED_VOID_N (ImGui_void L ''PushButtonRepeat'') (addr L ''PopButtonRepeat'')"

definition with_ItemWidth :: "('s, 'a) library \<Rightarrow> 'a arg list \<Rightarrow> ('s, 'a) block_macro" where
  "with_ItemWidth L = IMGUI_SUGAR_SCOPED_VOID_N (ImGui_void L ''PushItemWidth'') (addr L ''PopItemWidth'')"

definition with_TextWrapPos :: "('s, 'a) library \<Rightarrow> 'a arg list \<Rightarrow> ('s, 'a) block_macro" where
  "with_TextWrapPos L = IMGUI_SUGAR_SCOPED_VOID_N (ImGui_void L ''PushTextWrapPos'') (addr L ''PopTextWrapPos'')"

definition with_ID :: "('s, 'a) library \<Rightarrow> 'a arg list \<Rightarrow> ('s, 'a) block_macro" where
  "with_ID L = IMGUI_SUGAR_SCOPED_VOID_N (ImGui_void L ''PushID'') (addr L ''PopID'')"

definition with_ClipRect :: "('s, 'a) library \<Rightarrow> 'a arg list \<Rightarrow> ('s, 'a) block_macro" where
  "with_ClipRect L = IMGUI_SUGAR_SCOPED_VOID_N (ImGui_void L ''PushClipRect'') (addr L ''PopClipRect'')"

definition with_TextureID :: "('s, 'a) library \<Rightarrow> 'a arg list \<Rightarrow> ('s, 'a) block_macro" where
  "with_TextureID L = IMGUI_SUGAR_SCOPED_VOID_N (ImGui_void L ''PushTextureID'') (addr L ''PopTextureID'')"

definition set_Font :: "('s, 'a) library \<Rightarrow> 'a arg list \<Rightarrow> ('s, 'a) stmt \<Rightarrow> ('s, 'a) stmt" where
  "set_Font L = IMGUI_SUGAR_PARENT_SCOPED_VOID_N (ImGui_void L ''PushFont'') (addr L ''PopFont'')"

definition set_ButtonRepeat :: "('s, 'a) library \<Rightarrow> 'a arg list \<Rightarrow> ('s, 'a) stmt \<Rightarrow> ('s, 'a) stmt" where
  "set_ButtonRepeat L = IMGUI_SUGAR_PARENT_SCOPED_VOID_N (ImGui_void L ''PushButtonRepeat'') (addr L ''PopButtonRepeat'')"

definition set_ItemWidth :: "('s, 'a) library \<Rightarrow> 'a arg list \<Rightarrow> ('s, 'a) stmt \<Rightarrow> ('s, 'a) stmt" where
  "set_ItemWidth L = IMGUI_SUGAR_PARENT_SCOPED_VOID_N (ImGui_void L ''PushItemWidth'') (addr L ''PopItemWidth'')"

definition set_TextWrapPos :: "('s, 'a) library \<Rightarrow> 'a arg list \<Rightarrow> ('s, 'a) stmt \<Rightarrow> ('s, 'a) stmt" where
  "set_TextWrapPos L = IMGUI_SUGAR_PARENT_SCOPED_VOID_N (ImGui_void L ''PushTextWrapPos'') (addr L ''PopTextWrapPos'')"

definition set_ID :: "('s, 'a) library \<Rightarrow> 'a arg list \<Rightarrow> ('s, 'a) stmt \<Rightarrow> ('s, 'a) stmt" where
  "set_ID L = IMGUI_SUGAR_PARENT_SCOPED_VOID_N (ImGui_void L ''PushID'') (addr L ''PopID'')"

definition set_ClipRect :: "('s, 'a) library \<Rightarrow> 'a arg list \<Rightarrow> ('s, 'a) stmt \<Rightarrow> ('s, 'a) stmt" where
  "set_ClipRect L = IMGUI_SUGAR_PARENT_SCOPED_VOID_N (ImGui_void L ''PushClipRect'') (addr L ''PopClipRect'')"

definition set_TextureID :: "('s, 'a) library \<Rightarrow> 'a arg list \<Rightarrow> ('s, 'a) stmt \<Rightarrow> ('s, 'a) stmt" where
  "set_TextureID L = IMGUI_SUGAR_PARENT_SCOPED_VOID_N (ImGui_void L ''PushTextureID'') (addr L ''PopTextureID'')"

definition set_StyleColor :: "('s, 'a) library \<Rightarrow> 'a arg list \<Rightarrow> ('s, 'a) stmt \<Rightarrow> ('s, 'a) stmt" where
  "set_StyleColor L = IMGUI_SUGAR_PARENT_SCOPED_VOID_N (ImGui_void L ''PushStyleColor'') (PopStyleColor L)"

definition set_StyleVar :: "('s, 'a) library \<Rightarrow> 'a arg list \<Rightarrow> ('s, 'a) stmt \<Rightarrow> ('s, 'a) stmt" where
  "set_StyleVar L = IMGUI_SUGAR_PARENT_SCOPED_VOID_N (ImGui_void L ''PushStyleVar'') (PopStyleVar L)"

definition with_StyleColor :: "('s, 'a) library \<Rightarrow> 'a arg list \<Rightarrow> ('s, 'a) block_macro" where
  "with_StyleColor L = IMGUI_SUGAR_SCOPED_VOID_N (ImGui_void L ''PushStyleColor'') (PopStyleColor L)"

definition with_StyleVar :: "('s, 'a) library \<Rightarrow> 'a arg list \<Rightarrow> ('s, 'a) block_macro" where
  "with_StyleVar L = IMGUI_SUGAR_SCOPED_VOID_N (ImGui_void L ''PushStyleVar'') (PopStyleVar L)"

subsection \<open>Non RAII\<close>



subsection \<open>Coloured buttons\<close>

text \<open>
  The two lambdas of \<open>with_ButtonColored\<close> name \<open>PushStyleColor\<close> and
  \<open>PopStyleColor(3)\<close> without qualification; with an argument, the latter can only be
  the library's \<open>PopStyleColor(int)\<close>.
\<close>

definition with_ButtonColored :: "('s, 'a) library \<Rightarrow> 'a \<Rightarrow> 'a \<Rightarrow> 'a \<Rightarrow> ('s, 'a) block_macro" where
  "with_ButtonColored L r g b =
     if_guard True
       (\<lambda>w. let w1 = ImGui_void L ''PushStyleColor'' [ColIdx ImGuiCol_Button, Vec4 r g b 0.5] w;
                w2 = ImGui_void L ''PushStyleColor'' [ColIdx ImGuiCol_ButtonHovered, Vec4 r g b 0.8] w1;
                w3 = ImGui_void L ''PushStyleColor'' [ColIdx ImGuiCol_ButtonActive, Vec4 r g b 0.7] w2
            in (True, w3))
       (\<lambda>w. (Returned (), ImGui_void L ''PopStyleColor'' [IntLit 3] w))"

subsection \<open>Enum-backed combo boxes, duration and angle fields\<close>





section \<open>Reading the call log\<close>

text \<open>Making the library call that a log entry records.\<close>

fun perform :: "('s, 'a) library \<Rightarrow> 'a call \<Rightarrow> ('s, 'a) world \<Rightarrow> ('s, 'a) world" where
  "perform L (Call f xs) w = ImGui_void L f xs w"

text \<open>
  The library keeps the pushed style colours on a stack: \<open>PushStyleColor\<close> adds one entry,
  \<open>PopStyleColor(count)\<close> removes \<open>count\<close> entries, one when the argument is left out.
  The net number of entries that the logged calls add is read off the log; a count that
  is an expression of the caller is opaque here and contributes nothing.
\<close>

fun style_color_delta :: "'a call \<Rightarrow> int" where
  "style_color_delta (Call f xs) =
     (if f = ''PushStyleColor'' then 1
      else if f = ''PopStyleColor'' then (case xs of [] \<Rightarrow> - 1 | [IntLit n] \<Rightarrow> - n | _ \<Rightarrow> 0)
      else 0)"

definition style_color_net :: "'a call list \<Rightarrow> int" where
  "style_color_net cs = sum_list (map style_color_delta cs)"

text \<open>Making a list of logged calls in order, and the three pushes of a coloured button.\<close>

fun perform_all :: "('s, 'a) library \<Rightarrow> 'a call list \<Rightarrow> ('s, 'a) world \<Rightarrow> ('s, 'a) world" where
  "perform_all L [] w = w"
| "perform_all L (c # cs) w = perform_all L cs (perform L c w)"

definition ButtonColored_pushes :: "'a \<Rightarrow> 'a \<Rightarrow> 'a \<Rightarrow> 'a call list" where
  "ButtonColored_pushes r g b =
     [Call ''PushStyleColor'' [ColIdx ImGuiCol_Button, Vec4 r g b 0.5],
      Call ''PushStyleColor'' [ColIdx ImGuiCol_ButtonHovered, Vec4 r g b 0.8],
      Call ''PushStyleColor'' [ColIdx ImGuiCol_ButtonActive, Vec4 r g b 0.7]]"

section \<open>The macros by the pair of calls they make\<close>

text \<open>
  The bool-returning macros whose end function is called unconditionally, and those whose
  end function is called only when the begin function returned true: each with its begin
  function and the name of its end function.
\<close>

definition closes_always :: "('s, 'a) library \<Rightarrow> (('a arg list \<Rightarrow> ('s, 'a) block_macro) \<times> ('a arg list \<Rightarrow> ('s, 'a) world \<Rightarrow> bool \<times> ('s, 'a) world) \<times> string) list" where
  "closes_always L =
    [(with_Window L, ImGui L ''Begin'', ''End''),
     (with_Child L, ImGui L ''BeginChild'', ''EndChild''),
     (with_ChildFrame L, ImGui L ''BeginChildFrame'', ''EndChildFrame'')]"

definition closes_if_open :: "('s, 'a) library \<Rightarrow> (('a arg list \<Rightarrow> ('s, 'a) block_macro) \<times> ('a arg list \<Rightarrow> ('s, 'a) world \<Rightarrow> bool \<times> ('s, 'a) world) \<times> string) list" where
  "closes_if_open L =
    [(with_Combo L, ImGui L ''BeginCombo'', ''EndCombo''),
     (with_ListBox L, ImGui L ''BeginListBox'', ''EndListBox''),
     (with_Menu L, ImGui L ''BeginMenu'', ''EndMenu''),
     (with_Popup L, ImGui L ''BeginPopup'', ''EndPopup''),
     (with_PopupModal L, ImGui L ''BeginPopupModal'', ''EndPopup''),
     (with_PopupContextItem L, ImGui L ''BeginPopupContextItem'', ''EndPopup''),
     (with_PopupContextWindow L, ImGui L ''BeginPopupContextWindow'', ''EndPopup''),
     (with_PopupContextVoid L, ImGui L ''BeginPopupContextVoid'', ''EndPopup''),
     (with_Table L, ImGui L ''BeginTable'', ''EndTable''),
     (with_TabBar L, ImGui L ''BeginTabBar'', ''EndTabBar''),
     (with_TabItem L, ImGui L ''BeginTabItem'', ''EndTabItem''),
     (with_DragDropSource L, ImGui L ''BeginDragDropSource'', ''EndDragDropSource''),
     (with_TreeNode L, ImGui L ''TreeNode'', ''TreePop''),
     (with_TreeNodeV L, ImGui L ''TreeNodeV'', ''TreePop''),
     (with_TreeNodeEx L, ImGui L ''TreeNodeEx'', ''TreePop''),
     (with_TreeNodeExV L, ImGui L ''TreeNodeExV'', ''TreePop''),
     (\<lambda>args. with_TooltipOnHover L, \<lambda>args. BeginTooltip L, ''EndTooltip''),
     (\<lambda>args. with_DragDropTarget L, \<lambda>args. ImGui L ''BeginDragDropTarget'' [], ''EndDragDropTarget''),
     (\<lambda>args. with_MainMenuBar L, \<lambda>args. ImGui L ''BeginMainMenuBar'' [], ''EndMainMenuBar''),
     (\<lambda>args. with_MenuBar L, \<lambda>args. ImGui L ''BeginMenuBar'' [], ''EndMenuBar'')]"

definition with_void :: "('s, 'a) library \<Rightarrow> (('a arg list \<Rightarrow> ('s, 'a) block_macro) \<times> ('a arg list \<Rightarrow> ('s, 'a) world \<Rightarrow> ('s, 'a) world) \<times> 'a call) list" where
  "with_void L =
    [(\<lambda>args. with_Group L, \<lambda>args. ImGui_void L ''BeginGroup'' [], Call ''EndGroup'' []),
     (\<lambda>args. with_Tooltip L, \<lambda>args. ImGui_void L ''BeginTooltip'' [], Call ''EndTooltip'' []),
     (with_Font L, ImGui_void L ''PushFont'', Call ''PopFont'' []),
     (with_ButtonRepeat L, ImGui_void L ''PushButtonRepeat'', Call ''PopButtonRepeat'' []),
     (with_ItemWidth L, ImGui_void L ''PushItemWidth'', Call ''PopItemWidth'' []),
     (with_TextWrapPos L, ImGui_void L ''PushTextWrapPos'', Call ''PopTextWrapPos'' []),
     (with_ID L, ImGui_void L ''PushID'', Call ''PopID'' []),
     (with_ClipRect L, ImGui_void L ''PushClipRect'', Call ''PopClipRect'' []),
     (with_TextureID L, ImGui_void L ''PushTextureID'', Call ''PopTextureID'' []),
     (with_StyleColor L, ImGui_void L ''PushStyleColor'', Call ''PopStyleColor'' [IntLit 1]),
     (with_StyleVar L, ImGui_void L ''PushStyleVar'', Call ''PopStyleVar'' [IntLit 1])]"

definition set_void :: "('s, 'a) library \<Rightarrow> (('a arg list \<Rightarrow> ('s, 'a) stmt \<Rightarrow> ('s, 'a) stmt) \<times> ('a arg list \<Rightarrow> ('s, 'a) world \<Rightarrow> ('s, 'a) world) \<times> 'a call) list" where
  "set_void L =
    [(set_Font L, ImGui_void L ''PushFont'', Call ''PopFont'' []),
     (set_ButtonRepeat L, ImGui_void L ''PushButtonRepeat'', Call ''PopButtonRepeat'' []),
     (set_ItemWidth L, ImGui_void L ''PushItemWidth'', Call ''PopItemWidth'' []),
     (set_TextWrapPos L, ImGui_void L ''PushTextWrapPos'', Call ''PopTextWrapPos'' []),
     (set_ID L, ImGui_void L ''PushID'', Call ''PopID'' []),
     (set_ClipRect L, ImGui_void L ''PushClipRect'', Call ''PopClipRect'' []),
     (set_TextureID L, ImGui_void L ''PushTextureID'', Call ''PopTextureID'' []),
     (set_StyleColor L, ImGui_void L ''PushStyleColor'', Call ''PopStyleColor'' [IntLit 1]),
     (set_StyleVar L, ImGui_void L ''PushStyleVar'', Call ''PopStyleVar'' [IntLit 1])]"






section \<open>A direct pass-through, in the words of the specification\<close>




section \<open>The life of a guard\<close>

text \<open>
  What can be called on a guard once constructed: the conversion to bool and, once, the
  destructor. Copy and move construction and both assignments are deleted.
\<close>

datatype ('s, 'a) lifetime = Constructed "('s, 'a) BooleanGuard" | Destroyed

datatype member = Operator_bool | Destructor

datatype observed = Converted bool | Destructed "unit outcome"

fun member_call :: "bool \<Rightarrow> member \<Rightarrow> ('s, 'a) BooleanGuard \<Rightarrow> ('s, 'a) world
    \<Rightarrow> observed \<times> ('s, 'a) lifetime \<times> ('s, 'a) world" where
  "member_call A Operator_bool g w = (Converted (operator_bool A g), Constructed g, w)"
| "member_call A Destructor g w =
     (let (r, w') = BooleanGuard_dtor A g w in (Destructed r, Destroyed, w'))"

fun use_guard :: "bool \<Rightarrow> member list \<Rightarrow> ('s, 'a) lifetime \<Rightarrow> ('s, 'a) world
    \<Rightarrow> observed list \<times> ('s, 'a) lifetime \<times> ('s, 'a) world" where
  "use_guard A [] l w = ([], l, w)"
| "use_guard A (m # ms) Destroyed w = ([], Destroyed, w)"
| "use_guard A (m # ms) (Constructed g) w =
     (let (ob, l1, w1) = member_call A m g w;
          (obs, l2, w2) = use_guard A ms l1 w1
      in (ob # obs, l2, w2))"

section \<open>Two small libraries and a callback to run the definitions on\<close>

definition open_ui :: "(unit, nat) library" where
  "open_ui f xs c = (True, c)"

definition closed_ui :: "(unit, nat) library" where
  "closed_ui f xs c = (False, c)"

definition start :: "(unit, nat) world" where
  "start = \<lparr>ctx = (), calls = []\<rparr>"

definition throwing :: "(unit, nat) ScopeEndCallback" where
  "throwing w = (Thrown, w)"

definition returning :: "(unit, nat) stmt" where
  "returning w = (Return, ImGui_void open_ui ''Text'' [] w)"





section \<open>Basic facts about calls, the destructor and the guarded statements\<close>

lemma ImGui_void_calls: "calls (ImGui_void L f xs w) = calls w @ [Call f xs]"
  by (simp add: ImGui_void_def ImGui_def split: prod.split)

lemma ImGui_void_start:
  "ImGui_void L f xs \<lparr>ctx = (), calls = cs\<rparr> = \<lparr>ctx = snd (L f xs ()), calls = cs @ [Call f xs]\<rparr>"
  by (simp add: ImGui_void_def ImGui_def split: prod.split)

lemma perform_calls: "calls (perform L c w) = calls w @ [c]"
  by (cases c) (simp add: ImGui_void_calls)

lemma perform_all_calls: "calls (perform_all L cs w) = calls w @ cs"
  by (induction cs arbitrary: w) (simp_all add: perform_calls)

lemma style_color_net_append:
  "style_color_net (cs @ ds) = style_color_net cs + style_color_net ds"
  by (simp add: style_color_net_def)

lemma noexcept_not_Thrown: "fst (noexcept e w) \<noteq> Thrown"
  by (simp add: noexcept_def split: prod.split outcome.split)

lemma noexcept_snd: "snd (noexcept e w) = snd (e w)"
  by (simp add: noexcept_def split: prod.split outcome.split)

lemma dtor_ctor:
  "BooleanGuard_dtor A (BooleanGuard_ctor A s e) w = (if A \<or> s then noexcept e w else (Returned (), w))"
  by (simp add: BooleanGuard_dtor_def BooleanGuard_dtor_body_def BooleanGuard_ctor_def noexcept_def)

lemma dtor_not_Thrown: "fst (BooleanGuard_dtor A g w) \<noteq> Thrown"
  by (simp add: BooleanGuard_dtor_def noexcept_not_Thrown)

lemma leave_scope_ctor:
  assumes "x \<noteq> Terminate"
  shows "leave_scope A (BooleanGuard_ctor A b e) x w =
           (if A \<or> b then (case e w of (Returned u, w') \<Rightarrow> (x, w') | (Thrown, w') \<Rightarrow> (Terminate, w')
                                       | (Terminated, w') \<Rightarrow> (Terminate, w'))
            else (x, w))"
  using assms by (simp add: leave_scope_def dtor_ctor noexcept_def split: prod.split outcome.split)

lemma if_guard_leave:
  assumes "init w = (b, w1)" and "(if b then body w1 else els w1) = (x, w2)"
  shows "if_guard A init e body els w = leave_scope A (BooleanGuard_ctor A b e) x w2"
  using assms by (simp add: if_guard_def operator_bool_def BooleanGuard_ctor_def split del: if_split)

lemma decl_guard_leave:
  assumes "init w = (b, w1)" and "rest w1 = (x, w2)"
  shows "decl_guard A init e rest w = leave_scope A (BooleanGuard_ctor A b e) x w2"
  using assms by (simp add: decl_guard_def)

lemma if_guard_returning:
  assumes "init w = (b, w1)" and "(if b then body w1 else els w1) = (x, w2)" and "x \<noteq> Terminate"
    and "e w2 = (Returned (), w3)"
  shows "if_guard A init e body els w = (x, if A \<or> b then w3 else w2)"
proof -
  have "if_guard A init e body els w = leave_scope A (BooleanGuard_ctor A b e) x w2"
    using assms(1,2) by (rule if_guard_leave)
  then show ?thesis
    using assms(3,4) by (simp add: leave_scope_ctor)
qed

lemma decl_guard_returning:
  assumes "init w = (b, w1)" and "rest w1 = (x, w2)" and "x \<noteq> Terminate"
    and "e w2 = (Returned (), w3)"
  shows "decl_guard A init e rest w = (x, if A \<or> b then w3 else w2)"
  using assms by (simp add: decl_guard_def leave_scope_ctor)

lemma if_guard_closing:
  assumes "init w = (b, w1)" and "(if b then body w1 else els w1) = (x, w2)" and "x \<noteq> Terminate"
    and "\<And>v. e v = (Returned (), c v)"
  shows "if_guard A init e body els w = (x, if A \<or> b then c w2 else w2)"
proof -
  have "e w2 = (Returned (), c w2)" by (rule assms(4))
  with assms(1,2,3) show ?thesis by (rule if_guard_returning)
qed

lemma decl_guard_closing:
  assumes "init w = (b, w1)" and "rest w1 = (x, w2)" and "x \<noteq> Terminate"
    and "\<And>v. e v = (Returned (), c v)"
  shows "decl_guard A init e rest w = (x, if A \<or> b then c w2 else w2)"
proof -
  have "e w2 = (Returned (), c w2)" by (rule assms(4))
  with assms(1,2,3) show ?thesis by (rule decl_guard_returning)
qed



lemma addr_returns: "addr L f w = (Returned (), ImGui_void L f [] w)"
  by (simp add: addr_def)

lemma perform_addr: "addr L E v = (Returned (), perform L (Call E []) v)"
  by (simp add: addr_def)

lemma perform_PopStyleColor: "PopStyleColor L v = (Returned (), perform L (Call ''PopStyleColor'' [IntLit 1]) v)"
  by (simp add: PopStyleColor_def)

lemma perform_PopStyleVar: "PopStyleVar L v = (Returned (), perform L (Call ''PopStyleVar'' [IntLit 1]) v)"
  by (simp add: PopStyleVar_def)


section \<open>The generic macros\<close>

lemma scoped_bool:
  assumes "BEGIN args w = (b, w1)" and "(if b then body w1 else els w1) = (x, w2)" and "x \<noteq> Terminate"
  shows "IMGUI_SUGAR_SCOPED_BOOL BEGIN (addr L END) ALWAYS args body els w =
           (x, if ALWAYS \<or> b then ImGui_void L END [] w2 else w2)"
  unfolding IMGUI_SUGAR_SCOPED_BOOL_def
  using assms addr_returns by (rule if_guard_closing)

lemma scoped_bool_0:
  assumes "BEGIN w = (b, w1)" and "(if b then body w1 else els w1) = (x, w2)" and "x \<noteq> Terminate"
  shows "IMGUI_SUGAR_SCOPED_BOOL_0 BEGIN (addr L END) ALWAYS body els w =
           (x, if ALWAYS \<or> b then ImGui_void L END [] w2 else w2)"
  unfolding IMGUI_SUGAR_SCOPED_BOOL_0_def
  using assms addr_returns by (rule if_guard_closing)

lemma scoped_void_n:
  assumes "body (BEGIN args w) = (x, w2)" and "x \<noteq> Terminate" and "\<And>v. e v = (Returned (), c v)"
  shows "IMGUI_SUGAR_SCOPED_VOID_N BEGIN e args body els w = (x, c w2)"
proof -
  have a: "IMGUI_SUGAR_ES BEGIN args w = (True, BEGIN args w)"
    by (simp add: IMGUI_SUGAR_ES_def)
  have b: "(if True then body (BEGIN args w) else els (BEGIN args w)) = (x, w2)"
    using assms(1) by simp
  have "if_guard True (IMGUI_SUGAR_ES BEGIN args) e body els w = (x, if True \<or> True then c w2 else w2)"
    using a b assms(2,3) by (rule if_guard_closing)
  then show ?thesis
    by (simp add: IMGUI_SUGAR_SCOPED_VOID_N_def)
qed

lemma scoped_void_0:
  assumes "body (BEGIN w) = (x, w2)" and "x \<noteq> Terminate" and "\<And>v. e v = (Returned (), c v)"
  shows "IMGUI_SUGAR_SCOPED_VOID_0 BEGIN e body els w = (x, c w2)"
proof -
  have a: "IMGUI_SUGAR_ES_0 BEGIN w = (True, BEGIN w)"
    by (simp add: IMGUI_SUGAR_ES_0_def)
  have b: "(if True then body (BEGIN w) else els (BEGIN w)) = (x, w2)"
    using assms(1) by simp
  have "if_guard True (IMGUI_SUGAR_ES_0 BEGIN) e body els w = (x, if True \<or> True then c w2 else w2)"
    using a b assms(2,3) by (rule if_guard_closing)
  then show ?thesis
    by (simp add: IMGUI_SUGAR_SCOPED_VOID_0_def)
qed

lemma parent_scoped_void_n:
  assumes "rest (BEGIN args w) = (x, w2)" and "x \<noteq> Terminate" and "\<And>v. e v = (Returned (), c v)"
  shows "IMGUI_SUGAR_PARENT_SCOPED_VOID_N BEGIN e args rest w = (x, c w2)"
proof -
  have a: "IMGUI_SUGAR_ES BEGIN args w = (True, BEGIN args w)"
    by (simp add: IMGUI_SUGAR_ES_def)
  have "decl_guard True (IMGUI_SUGAR_ES BEGIN args) e rest w = (x, if True \<or> True then c w2 else w2)"
    using a assms by (rule decl_guard_closing)
  then show ?thesis
    by (simp add: IMGUI_SUGAR_PARENT_SCOPED_VOID_N_def)
qed






section \<open>The rows of the tables, and the special cases\<close>

lemma with_void_rows:
  assumes "(m, BEGIN, closing) \<in> set (with_void L)"
  shows "(\<exists>B E. m = IMGUI_SUGAR_SCOPED_VOID_N (ImGui_void L B) (addr L E) \<and>
             BEGIN = ImGui_void L B \<and> closing = Call E [])
       \<or> (\<exists>B E. m = (\<lambda>args. IMGUI_SUGAR_SCOPED_VOID_0 (ImGui_void L B []) (addr L E)) \<and>
             BEGIN = (\<lambda>args. ImGui_void L B []) \<and> closing = Call E [])
       \<or> (\<exists>B. m = IMGUI_SUGAR_SCOPED_VOID_N (ImGui_void L B) (PopStyleColor L) \<and>
             BEGIN = ImGui_void L B \<and> closing = Call ''PopStyleColor'' [IntLit 1])
       \<or> (\<exists>B. m = IMGUI_SUGAR_SCOPED_VOID_N (ImGui_void L B) (PopStyleVar L) \<and>
             BEGIN = ImGui_void L B \<and> closing = Call ''PopStyleVar'' [IntLit 1])"
  using assms
  unfolding with_void_def with_Group_def with_Tooltip_def with_Font_def with_ButtonRepeat_def
    with_ItemWidth_def with_TextWrapPos_def with_ID_def with_ClipRect_def with_TextureID_def
    with_StyleColor_def with_StyleVar_def
  apply simp
  apply (elim disjE conjE)
  apply blast+
  done

lemma set_void_rows:
  assumes "(p, BEGIN, closing) \<in> set (set_void L)"
  shows "(\<exists>B E. p = IMGUI_SUGAR_PARENT_SCOPED_VOID_N (ImGui_void L B) (addr L E) \<and>
             BEGIN = ImGui_void L B \<and> closing = Call E [])
       \<or> (\<exists>B. p = IMGUI_SUGAR_PARENT_SCOPED_VOID_N (ImGui_void L B) (PopStyleColor L) \<and>
             BEGIN = ImGui_void L B \<and> closing = Call ''PopStyleColor'' [IntLit 1])
       \<or> (\<exists>B. p = IMGUI_SUGAR_PARENT_SCOPED_VOID_N (ImGui_void L B) (PopStyleVar L) \<and>
             BEGIN = ImGui_void L B \<and> closing = Call ''PopStyleVar'' [IntLit 1])"
  using assms
  unfolding set_void_def set_Font_def set_ButtonRepeat_def
    set_ItemWidth_def set_TextWrapPos_def set_ID_def set_ClipRect_def set_TextureID_def
    set_StyleColor_def set_StyleVar_def
  apply simp
  apply (elim disjE conjE)
  apply blast+
  done







lemma ButtonColored_init:
  "(let w1 = ImGui_void L ''PushStyleColor'' [ColIdx ImGuiCol_Button, Vec4 r g b 0.5] w;
        w2 = ImGui_void L ''PushStyleColor'' [ColIdx ImGuiCol_ButtonHovered, Vec4 r g b 0.8] w1;
        w3 = ImGui_void L ''PushStyleColor'' [ColIdx ImGuiCol_ButtonActive, Vec4 r g b 0.7] w2
    in (True, w3)) = (True, perform_all L (ButtonColored_pushes r g b) w)"
  by (simp add: ButtonColored_pushes_def)

lemma use_guard_Destroyed: "use_guard A ms Destroyed w = ([], Destroyed, w)"
  by (cases ms) simp_all

lemma use_guard_inv:
  "use_guard A ms (Constructed g) w = (obs, l, w') \<Longrightarrow>
     (l = Constructed g \<or> l = Destroyed)
     \<and> (\<forall>b. Converted b \<in> set obs \<longrightarrow> b = m_state g)
     \<and> Destructed Thrown \<notin> set obs
     \<and> (l = Destroyed \<longleftrightarrow> Destructor \<in> set ms)"
proof (induction ms arbitrary: w obs l w')
  case Nil
  then show ?case by auto
next
  case (Cons m ms)
  show ?case
  proof (cases m)
    case Operator_bool
    obtain obs1 l1 w1 where u: "use_guard A ms (Constructed g) w = (obs1, l1, w1)"
      by (cases "use_guard A ms (Constructed g) w")
    from Cons.prems Operator_bool u
    have "obs = Converted (m_state g) # obs1" "l = l1"
      by (simp_all add: operator_bool_def)
    with Cons.IH [OF u] Operator_bool show ?thesis
      by auto
  next
    case Destructor
    obtain r v where d: "BooleanGuard_dtor A g w = (r, v)"
      by (cases "BooleanGuard_dtor A g w")
    then have "r \<noteq> Thrown"
      using dtor_not_Thrown [of A g w] by simp
    moreover from Cons.prems Destructor d
    have "obs = [Destructed r]" "l = Destroyed"
      by (simp_all add: use_guard_Destroyed)
    ultimately show ?thesis
      using Destructor by simp
  qed
qed

lemma bool_macro_run:
  assumes "BEGIN args w = (b, w1)"
    and "(if b then body w1 else els w1) = (x, w2)" and "x \<noteq> Terminate"
  shows "((m, BEGIN, END) \<in> set (closes_always L) \<longrightarrow>
            m args body els w = (x, ImGui_void L END [] w2))
       \<and> ((m, BEGIN, END) \<in> set (closes_if_open L) \<longrightarrow>
            m args body els w = (x, if b then ImGui_void L END [] w2 else w2))"
proof (intro conjI impI)
  assume "(m, BEGIN, END) \<in> set (closes_always L)"
  then consider "m = with_Window L" "BEGIN = ImGui L ''Begin''" "END = ''End''"
    | "m = with_Child L" "BEGIN = ImGui L ''BeginChild''" "END = ''EndChild''"
    | "m = with_ChildFrame L" "BEGIN = ImGui L ''BeginChildFrame''" "END = ''EndChildFrame''"
    by (auto simp add: closes_always_def)
  then show "m args body els w = (x, ImGui_void L END [] w2)"
  proof cases
    case 1
    with assms show ?thesis by (simp add: with_Window_def scoped_bool)
  next
    case 2
    with assms show ?thesis by (simp add: with_Child_def scoped_bool)
  next
    case 3
    with assms show ?thesis by (simp add: with_ChildFrame_def scoped_bool)
  qed
next
  assume "(m, BEGIN, END) \<in> set (closes_if_open L)"
  then have "(\<exists>B. m = IMGUI_SUGAR_SCOPED_BOOL (ImGui L B) (addr L END) False \<and> BEGIN = ImGui L B)
     \<or> (\<exists>B. m = (\<lambda>args. IMGUI_SUGAR_SCOPED_BOOL_0 B (addr L END) False) \<and> BEGIN = (\<lambda>args. B))"
    unfolding closes_if_open_def with_Combo_def with_ListBox_def with_Menu_def with_Popup_def
      with_PopupModal_def with_PopupContextItem_def with_PopupContextWindow_def
      with_PopupContextVoid_def with_Table_def with_TabBar_def with_TabItem_def
      with_DragDropSource_def with_TreeNode_def with_TreeNodeV_def with_TreeNodeEx_def
      with_TreeNodeExV_def with_TooltipOnHover_def with_DragDropTarget_def
      with_MainMenuBar_def with_MenuBar_def
    apply simp
    apply (elim disjE conjE)
    apply blast+
    done
  then show "m args body els w = (x, if b then ImGui_void L END [] w2 else w2)"
  proof (elim disjE exE conjE)
    fix B assume "m = IMGUI_SUGAR_SCOPED_BOOL (ImGui L B) (addr L END) False" "BEGIN = ImGui L B"
    with assms show ?thesis by (simp add: scoped_bool)
  next
    fix B
    assume "m = (\<lambda>args. IMGUI_SUGAR_SCOPED_BOOL_0 B (addr L END) False)" "BEGIN = (\<lambda>args. B)"
    with assms show ?thesis by (simp add: scoped_bool_0)
  qed
qed


lemma void_macro_run:
  assumes "blk (BEGIN args w) = (x, w2)" and "x \<noteq> Terminate"
  shows "((m, BEGIN, closing) \<in> set (with_void L) \<longrightarrow>
            m args blk els w = (x, perform L closing w2))
       \<and> ((p, BEGIN, closing) \<in> set (set_void L) \<longrightarrow>
            p args blk w = (x, perform L closing w2))"
proof (intro conjI impI)
  assume "(m, BEGIN, closing) \<in> set (with_void L)"
  from with_void_rows [OF this] show "m args blk els w = (x, perform L closing w2)"
  proof (elim disjE exE conjE)
    fix B E
    assume r: "m = IMGUI_SUGAR_SCOPED_VOID_N (ImGui_void L B) (addr L E)"
      "BEGIN = ImGui_void L B" "closing = Call E []"
    have "IMGUI_SUGAR_SCOPED_VOID_N (ImGui_void L B) (addr L E) args blk els w =
        (x, perform L (Call E []) w2)"
      using assms(1) unfolding r(2) by (rule scoped_void_n [OF _ assms(2) perform_addr])
    then show ?thesis by (simp only: r)
  next
    fix B E
    assume r: "m = (\<lambda>args. IMGUI_SUGAR_SCOPED_VOID_0 (ImGui_void L B []) (addr L E))"
      "BEGIN = (\<lambda>args. ImGui_void L B [])" "closing = Call E []"
    have "IMGUI_SUGAR_SCOPED_VOID_0 (ImGui_void L B []) (addr L E) blk els w =
        (x, perform L (Call E []) w2)"
      using assms(1) unfolding r(2) by (rule scoped_void_0 [OF _ assms(2) perform_addr])
    then show ?thesis by (simp only: r)
  next
    fix B
    assume r: "m = IMGUI_SUGAR_SCOPED_VOID_N (ImGui_void L B) (PopStyleColor L)"
      "BEGIN = ImGui_void L B" "closing = Call ''PopStyleColor'' [IntLit 1]"
    have "IMGUI_SUGAR_SCOPED_VOID_N (ImGui_void L B) (PopStyleColor L) args blk els w =
        (x, perform L (Call ''PopStyleColor'' [IntLit 1]) w2)"
      using assms(1) unfolding r(2) by (rule scoped_void_n [OF _ assms(2) perform_PopStyleColor])
    then show ?thesis by (simp only: r)
  next
    fix B
    assume r: "m = IMGUI_SUGAR_SCOPED_VOID_N (ImGui_void L B) (PopStyleVar L)"
      "BEGIN = ImGui_void L B" "closing = Call ''PopStyleVar'' [IntLit 1]"
    have "IMGUI_SUGAR_SCOPED_VOID_N (ImGui_void L B) (PopStyleVar L) args blk els w =
        (x, perform L (Call ''PopStyleVar'' [IntLit 1]) w2)"
      using assms(1) unfolding r(2) by (rule scoped_void_n [OF _ assms(2) perform_PopStyleVar])
    then show ?thesis by (simp only: r)
  qed
next
  assume "(p, BEGIN, closing) \<in> set (set_void L)"
  from set_void_rows [OF this] show "p args blk w = (x, perform L closing w2)"
  proof (elim disjE exE conjE)
    fix B E
    assume r: "p = IMGUI_SUGAR_PARENT_SCOPED_VOID_N (ImGui_void L B) (addr L E)"
      "BEGIN = ImGui_void L B" "closing = Call E []"
    have "IMGUI_SUGAR_PARENT_SCOPED_VOID_N (ImGui_void L B) (addr L E) args blk w =
        (x, perform L (Call E []) w2)"
      using assms(1) unfolding r(2) by (rule parent_scoped_void_n [OF _ assms(2) perform_addr])
    then show ?thesis by (simp only: r)
  next
    fix B
    assume r: "p = IMGUI_SUGAR_PARENT_SCOPED_VOID_N (ImGui_void L B) (PopStyleColor L)"
      "BEGIN = ImGui_void L B" "closing = Call ''PopStyleColor'' [IntLit 1]"
    have "IMGUI_SUGAR_PARENT_SCOPED_VOID_N (ImGui_void L B) (PopStyleColor L) args blk w =
        (x, perform L (Call ''PopStyleColor'' [IntLit 1]) w2)"
      using assms(1) unfolding r(2)
      by (rule parent_scoped_void_n [OF _ assms(2) perform_PopStyleColor])
    then show ?thesis by (simp only: r)
  next
    fix B
    assume r: "p = IMGUI_SUGAR_PARENT_SCOPED_VOID_N (ImGui_void L B) (PopStyleVar L)"
      "BEGIN = ImGui_void L B" "closing = Call ''PopStyleVar'' [IntLit 1]"
    have "IMGUI_SUGAR_PARENT_SCOPED_VOID_N (ImGui_void L B) (PopStyleVar L) args blk w =
        (x, perform L (Call ''PopStyleVar'' [IntLit 1]) w2)"
      using assms(1) unfolding r(2)
      by (rule parent_scoped_void_n [OF _ assms(2) perform_PopStyleVar])
    then show ?thesis by (simp only: r)
  qed
qed 

lemma ButtonColored_run:
  fixes L :: "('s, 'a) library"
  assumes "body (perform_all L (ButtonColored_pushes r g b) w) = (x, w2)" and "x \<noteq> Terminate"
  shows "with_ButtonColored L r g b body els w =
           (x, perform L (Call ''PopStyleColor'' [IntLit 3]) w2)"
proof -
  let ?init = "\<lambda>w. let w1 = ImGui_void L ''PushStyleColor'' [ColIdx ImGuiCol_Button, Vec4 r g b 0.5] w;
        w2 = ImGui_void L ''PushStyleColor'' [ColIdx ImGuiCol_ButtonHovered, Vec4 r g b 0.8] w1;
        w3 = ImGui_void L ''PushStyleColor'' [ColIdx ImGuiCol_ButtonActive, Vec4 r g b 0.7] w2
    in (True, w3)"
  let ?e = "\<lambda>w. (Returned (), ImGui_void L ''PopStyleColor'' [IntLit 3] w)"
  let ?w1 = "perform_all L (ButtonColored_pushes r g b) w"
  have i: "?init w = (True, ?w1)"
    by (rule ButtonColored_init)
  have r: "(if True then body ?w1 else els ?w1) = (x, w2)"
    using assms(1) by simp
  have e: "\<And>v. ?e v = (Returned (), perform L (Call ''PopStyleColor'' [IntLit 3]) v)"
    by simp
  have "if_guard True ?init ?e body els w =
      (x, if True \<or> True then perform L (Call ''PopStyleColor'' [IntLit 3]) w2 else w2)"
    using i r assms(2) e by (rule if_guard_closing)
  then show ?thesis
    by (simp add: with_ButtonColored_def)
qed





section \<open>The guard\<close>

text \<open>
  C1. For a guard constructed with state \<open>s\<close> and callback \<open>e\<close>, the destructor invokes
  \<open>e\<close> (as a \<open>noexcept\<close> call, on the world it finds) when \<open>AlwaysCallEnd\<close> or \<open>s\<close>
  holds, and otherwise does nothing at all; so with \<open>AlwaysCallEnd\<close> false, \<open>e\<close> is
  invoked if and only if \<open>s\<close> is true. When \<open>e\<close> is a library function, the log grows by
  exactly that one call, or not at all.
\<close>

theorem BooleanGuard_dtor_invokes_end:
  "BooleanGuard_dtor AlwaysCallEnd (BooleanGuard_ctor AlwaysCallEnd s e) w =
     (if AlwaysCallEnd \<or> s then noexcept e w else (Returned (), w))
   \<and> calls (snd (BooleanGuard_dtor AlwaysCallEnd (BooleanGuard_ctor AlwaysCallEnd s (addr L f)) w)) =
     calls w @ (if AlwaysCallEnd \<or> s then [Call f []] else [])"
  by (simp add: dtor_ctor noexcept_snd addr_def ImGui_void_calls)

theorem BooleanGuard_dtor_invokes_end_witness:
  "calls (snd (BooleanGuard_dtor True (BooleanGuard_ctor True False (addr open_ui ''End'')) start)) =
     [Call ''End'' []]
   \<and> calls (snd (BooleanGuard_dtor False (BooleanGuard_ctor False True (addr open_ui ''EndMenu'')) start)) =
     [Call ''EndMenu'' []]
   \<and> BooleanGuard_dtor False (BooleanGuard_ctor False False (addr open_ui ''EndMenu'')) start =
     (Returned (), start)"
proof -
  have c: "calls start = []"
    by (simp add: start_def)
  have 1: "calls (snd (BooleanGuard_dtor True (BooleanGuard_ctor True False (addr open_ui ''End'')) start)) =
      [Call ''End'' []]"
    using BooleanGuard_dtor_invokes_end
      [of True False "addr open_ui ''End''" start open_ui "''End''", THEN conjunct2]
    by (simp add: c)
  have 2: "calls (snd (BooleanGuard_dtor False (BooleanGuard_ctor False True (addr open_ui ''EndMenu'')) start)) =
      [Call ''EndMenu'' []]"
    using BooleanGuard_dtor_invokes_end
      [of False True "addr open_ui ''EndMenu''" start open_ui "''EndMenu''", THEN conjunct2]
    by (simp add: c)
  have 3: "BooleanGuard_dtor False (BooleanGuard_ctor False False (addr open_ui ''EndMenu'')) start =
      (Returned (), start)"
    using BooleanGuard_dtor_invokes_end
      [of False False "addr open_ui ''EndMenu''" start open_ui "''EndMenu''", THEN conjunct1]
    by simp
  show ?thesis
    using 1 2 3 by (intro conjI)
qed

text \<open>
  C3. The conversion to bool of a guard constructed with state \<open>s\<close> is \<open>s\<close>, whatever
  \<open>AlwaysCallEnd\<close> is.
\<close>

theorem operator_bool_is_state:
  "operator_bool AlwaysCallEnd (BooleanGuard_ctor AlwaysCallEnd s e) = s"
  by (simp add: operator_bool_def BooleanGuard_ctor_def)

theorem operator_bool_is_state_witness:
  "operator_bool True (BooleanGuard_ctor True False (addr open_ui ''End'')) = False
   \<and> operator_bool False (BooleanGuard_ctor False True (addr open_ui ''EndMenu''))"
  using operator_bool_is_state [of True False "addr open_ui ''End''"]
    operator_bool_is_state [of False True "addr open_ui ''EndMenu''"]
  by simp

text \<open>
  C5. A guard is its two fields and nothing else; the constructor sets them to its two
  arguments; and however the members that exist on a live guard are called, in any number
  and order, the guard is afterwards either still the one constructed, with both fields as
  they were set, or destroyed, and every conversion to bool in between has read the state
  given at construction.
\<close>

theorem guard_state_fixed:
  fixes g :: "('s, 'a) BooleanGuard"
  shows "g = \<lparr>m_state = m_state g, m_end = m_end g\<rparr>
       \<and> BooleanGuard_ctor A s e = \<lparr>m_state = s, m_end = e\<rparr>
       \<and> (use_guard A ms (Constructed (BooleanGuard_ctor A s e)) w = (obs, l, w') \<longrightarrow>
            (l = Constructed \<lparr>m_state = s, m_end = e\<rparr> \<or> l = Destroyed)
            \<and> (\<forall>b. Converted b \<in> set obs \<longrightarrow> b = s))"
proof (intro conjI impI)
  assume "use_guard A ms (Constructed (BooleanGuard_ctor A s e)) w = (obs, l, w')"
  from use_guard_inv [OF this]
  have "l = Constructed (BooleanGuard_ctor A s e) \<or> l = Destroyed"
    and "\<forall>b. Converted b \<in> set obs \<longrightarrow> b = m_state (BooleanGuard_ctor A s e)"
    by blast+
  then show "l = Constructed \<lparr>m_state = s, m_end = e\<rparr> \<or> l = Destroyed"
    and "\<forall>b. Converted b \<in> set obs \<longrightarrow> b = s"
    by (simp_all add: BooleanGuard_ctor_def)
qed (simp_all add: BooleanGuard_ctor_def)

theorem guard_state_fixed_witness:
  "use_guard False [Operator_bool, Operator_bool] (Constructed (BooleanGuard_ctor False True throwing)) start =
     ([Converted True, Converted True], Constructed \<lparr>m_state = True, m_end = throwing\<rparr>, start)
   \<and> Converted False \<notin> set [Converted True, Converted True]"
proof -
  have u: "use_guard False [Operator_bool, Operator_bool] (Constructed (BooleanGuard_ctor False True throwing)) start =
     ([Converted True, Converted True], Constructed \<lparr>m_state = True, m_end = throwing\<rparr>, start)"
    by (simp add: operator_bool_def BooleanGuard_ctor_def)
  have "\<forall>b. Converted b \<in> set [Converted True, Converted True] \<longrightarrow> b = True"
    using guard_state_fixed [where A = False and ms = "[Operator_bool, Operator_bool]"
        and s = True and e = throwing and w = start and obs = "[Converted True, Converted True]"
        and l = "Constructed \<lparr>m_state = True, m_end = throwing\<rparr>" and w' = start,
        THEN conjunct2, THEN conjunct2, THEN mp, OF u, THEN conjunct2] .
  then have "Converted False \<notin> set [Converted True, Converted True]"
    by blast
  with u show ?thesis by (intro conjI)
qed

text \<open>
  C7, as stated, fails: destruction can fail. With a callback that throws, the destructor,
  being \<open>noexcept\<close>, ends the program instead of returning.
\<close>

theorem destructor_ends_program_on_throwing_callback:
  "BooleanGuard_dtor True (BooleanGuard_ctor True False throwing) start = (Terminated, start)
   \<and> BooleanGuard_dtor False (BooleanGuard_ctor False True throwing) start = (Terminated, start)
   \<and> fst (BooleanGuard_dtor True (BooleanGuard_ctor True False throwing) start) \<noteq> Returned ()"
  by (simp add: dtor_ctor noexcept_def throwing_def)

text \<open>
  C7, amended. The guard has no failure of its own. Its construction and its conversion
  to bool always return normally and leave everything else as it was, and its destruction
  never throws. Destruction returns normally exactly when it does not invoke the closing
  call or the closing call returns; when the closing call throws, the destructor ends the
  program. With each callback that the header installs on a library function, destruction
  returns. Over any sequence of member calls the only change of a guard is from
  constructed to destroyed, made by the destructor and by nothing else, and nothing
  follows it.
\<close>

theorem guard_has_no_failure_of_its_own:
  fixes g :: "('s, 'a) BooleanGuard"
  shows "fst (BooleanGuard_dtor A g w) \<noteq> Thrown
       \<and> ((fst (BooleanGuard_dtor A g w) = Returned ()) =
           (\<not> (A \<or> m_state g) \<or> fst (m_end g w) = Returned ()))
       \<and> fst (BooleanGuard_dtor A (BooleanGuard_ctor A s (addr L f)) w) = Returned ()
       \<and> fst (BooleanGuard_dtor A (BooleanGuard_ctor A s (PopStyleColor L)) w) = Returned ()
       \<and> fst (BooleanGuard_dtor A (BooleanGuard_ctor A s (PopStyleVar L)) w) = Returned ()
       \<and> fst (BooleanGuard_dtor A (BooleanGuard_ctor A s
                (\<lambda>v. (Returned (), ImGui_void L ''PopStyleColor'' [IntLit 3] v))) w) = Returned ()
       \<and> (use_guard A ms (Constructed g) w = (obs, l, w') \<longrightarrow>
            Destructed Thrown \<notin> set obs
            \<and> (l = Constructed g \<or> l = Destroyed)
            \<and> (l = Destroyed \<longleftrightarrow> Destructor \<in> set ms))
       \<and> use_guard A ms Destroyed w = ([], Destroyed, w)
       \<and> noexcept (\<lambda>v. (Returned (BooleanGuard_ctor A s e), v)) w =
           (Returned \<lparr>m_state = s, m_end = e\<rparr>, w)
       \<and> noexcept (\<lambda>v. (Returned (operator_bool A g), v)) w = (Returned (m_state g), w)
       \<and> member_call A Operator_bool g w = (Converted (m_state g), Constructed g, w)
       \<and> ((A \<or> m_state g) \<and> fst (m_end g w) = Thrown \<longrightarrow>
            fst (BooleanGuard_dtor A g w) = Terminated)"
proof (intro conjI impI)
  show "(fst (BooleanGuard_dtor A g w) = Returned ()) =
           (\<not> (A \<or> m_state g) \<or> fst (m_end g w) = Returned ())"
    by (cases "m_end g w"; cases "fst (m_end g w)")
      (auto simp add: BooleanGuard_dtor_def BooleanGuard_dtor_body_def noexcept_def)
next
  assume u: "use_guard A ms (Constructed g) w = (obs, l, w')"
  from use_guard_inv [OF u] show "Destructed Thrown \<notin> set obs"
    and "l = Constructed g \<or> l = Destroyed" and "l = Destroyed \<longleftrightarrow> Destructor \<in> set ms"
    by blast+
next
  assume "(A \<or> m_state g) \<and> fst (m_end g w) = Thrown"
  then show "fst (BooleanGuard_dtor A g w) = Terminated"
    by (cases "m_end g w")
      (auto simp add: BooleanGuard_dtor_def BooleanGuard_dtor_body_def noexcept_def)
next
  show "noexcept (\<lambda>v. (Returned (BooleanGuard_ctor A s e), v)) w =
      (Returned \<lparr>m_state = s, m_end = e\<rparr>, w)"
    by (simp add: noexcept_def BooleanGuard_ctor_def)
next
  show "noexcept (\<lambda>v. (Returned (operator_bool A g), v)) w = (Returned (m_state g), w)"
    by (simp add: noexcept_def operator_bool_def)
next
  show "member_call A Operator_bool g w = (Converted (m_state g), Constructed g, w)"
    by (simp add: operator_bool_def)
qed (simp_all add: dtor_not_Thrown use_guard_Destroyed dtor_ctor noexcept_def addr_def
    PopStyleColor_def PopStyleVar_def)

theorem guard_has_no_failure_of_its_own_witness:
  "use_guard True [Operator_bool, Destructor, Operator_bool] (Constructed (BooleanGuard_ctor True False throwing)) start =
     ([Converted False, Destructed Terminated], Destroyed, start)
   \<and> Destructed Thrown \<notin> set [Converted False, Destructed Terminated]
   \<and> fst (BooleanGuard_dtor True (BooleanGuard_ctor True False (addr open_ui ''End'')) start) = Returned ()
   \<and> fst (BooleanGuard_dtor True (BooleanGuard_ctor True False throwing) start) = Terminated"
proof -
  have u: "use_guard True [Operator_bool, Destructor, Operator_bool] (Constructed (BooleanGuard_ctor True False throwing)) start =
     ([Converted False, Destructed Terminated], Destroyed, start)"
    by (simp add: operator_bool_def BooleanGuard_ctor_def BooleanGuard_dtor_def
        BooleanGuard_dtor_body_def noexcept_def throwing_def)
  note t = guard_has_no_failure_of_its_own [where A = True
      and ms = "[Operator_bool, Destructor, Operator_bool]"
      and g = "BooleanGuard_ctor True False throwing" and w = start
      and obs = "[Converted False, Destructed Terminated]" and l = Destroyed and w' = start
      and s = False and L = open_ui and f = "''End''"]
  have 1: "Destructed Thrown \<notin> set [Converted False, Destructed Terminated]"
    using t [THEN conjunct2, THEN conjunct2, THEN conjunct2, THEN conjunct2, THEN conjunct2,
        THEN conjunct2, THEN conjunct1, THEN mp, OF u, THEN conjunct1] .
  have 2: "fst (BooleanGuard_dtor True (BooleanGuard_ctor True False (addr open_ui ''End'')) start) = Returned ()"
    using t [THEN conjunct2, THEN conjunct2, THEN conjunct1] .
  have h: "(True \<or> m_state (BooleanGuard_ctor True False throwing)) \<and>
      fst (m_end (BooleanGuard_ctor True False throwing) start) = Thrown"
    by (simp add: BooleanGuard_ctor_def throwing_def)
  have 3: "fst (BooleanGuard_dtor True (BooleanGuard_ctor True False throwing) start) = Terminated"
    using t [THEN conjunct2, THEN conjunct2, THEN conjunct2, THEN conjunct2, THEN conjunct2,
        THEN conjunct2, THEN conjunct2, THEN conjunct2, THEN conjunct2, THEN conjunct2,
        THEN conjunct2, THEN mp, OF h] .
  from u 1 2 3 show ?thesis by (intro conjI)
qed

section \<open>One closing call per scope\<close>

text \<open>
  C2. Let the opening expression of a scoped macro yield \<open>b\<close>, and let the block that
  then runs (the body when \<open>b\<close> holds, the \<open>else\<close> part when not; for a guard managed by
  the parent scope the rest of the enclosing block) be left in any way that leaves it:
  normally, by \<open>break\<close>, \<open>continue\<close>, \<open>return\<close> or \<open>goto\<close>, or by an exception. Then the
  closing callback is applied exactly once, to the world that the block left, when the
  guard always closes or \<open>b\<close> holds, and is not applied when neither holds. This holds
  for the two guarded statement forms; for each of the five generic macros, whatever begin
  function and callback they are given; for every macro of the header that is defined
  through them, where the log is the log that the block left followed by the one closing
  call of that macro, or by nothing; and for \<open>with_ButtonColored\<close>.
\<close>

theorem closing_call_once_per_scope:
  fixes L :: "('s, 'a) library"
  assumes "init w = (b, w1)"
    and "(if b then body w1 else els w1) = (x, w2)" and "x \<noteq> Terminate"
    and "rest w1 = (y, v2)" and "y \<noteq> Terminate"
  shows "snd (if_guard A init e body els w) = (if A \<or> b then snd (e w2) else w2)
       \<and> snd (decl_guard A init e rest w) = (if A \<or> b then snd (e v2) else v2)
       \<and> if_guard A init (addr L END) body els w = (x, if A \<or> b then ImGui_void L END [] w2 else w2)
       \<and> decl_guard A init (addr L END) rest w = (y, if A \<or> b then ImGui_void L END [] v2 else v2)
       \<and> calls (snd (if_guard A init (addr L END) body els w)) =
           calls w2 @ (if A \<or> b then [Call END []] else [])
       \<and> calls (snd (decl_guard A init (addr L END) rest w)) =
           calls v2 @ (if A \<or> b then [Call END []] else [])
       \<and> (GBEGIN gargs = init \<longrightarrow>
            snd (IMGUI_SUGAR_SCOPED_BOOL GBEGIN e A gargs body els w) =
              (if A \<or> b then snd (e w2) else w2))
       \<and> snd (IMGUI_SUGAR_SCOPED_BOOL_0 init e A body els w) =
            (if A \<or> b then snd (e w2) else w2)
       \<and> (IMGUI_SUGAR_ES GVOID gargs = init \<longrightarrow>
            snd (IMGUI_SUGAR_SCOPED_VOID_N GVOID e gargs body els w) = snd (e w2))
       \<and> (IMGUI_SUGAR_ES_0 GVOID0 = init \<longrightarrow>
            snd (IMGUI_SUGAR_SCOPED_VOID_0 GVOID0 e body els w) = snd (e w2))
       \<and> (IMGUI_SUGAR_ES GVOID gargs = init \<longrightarrow>
            snd (IMGUI_SUGAR_PARENT_SCOPED_VOID_N GVOID e gargs rest w) = snd (e v2))
       \<and> ((m, BEGIN, END) \<in> set (closes_always L) \<longrightarrow> BEGIN args = init \<longrightarrow>
            calls (snd (m args body els w)) = calls w2 @ [Call END []])
       \<and> ((m, BEGIN, END) \<in> set (closes_if_open L) \<longrightarrow> BEGIN args = init \<longrightarrow>
            calls (snd (m args body els w)) = calls w2 @ (if b then [Call END []] else []))
       \<and> ((n, PUSH, closing) \<in> set (with_void L) \<longrightarrow> IMGUI_SUGAR_ES PUSH args = init \<longrightarrow>
            calls (snd (n args body els w)) = calls w2 @ [closing])
       \<and> ((p, PUSH, closing) \<in> set (set_void L) \<longrightarrow> IMGUI_SUGAR_ES PUSH args = init \<longrightarrow>
            calls (snd (p args rest w)) = calls v2 @ [closing])
       \<and> ((\<lambda>v. (True, perform_all L (ButtonColored_pushes r g bl) v)) = init \<longrightarrow>
            calls (snd (with_ButtonColored L r g bl body els w)) =
              calls w2 @ [Call ''PopStyleColor'' [IntLit 3]])"
proof -
  have i: "if_guard A' init c body els w = leave_scope A' (BooleanGuard_ctor A' b c) x w2" for c A'
    using assms(1,2) by (rule if_guard_leave)
  have d: "decl_guard A' init c rest w = leave_scope A' (BooleanGuard_ctor A' b c) y v2" for c A'
    using assms(1,4) by (rule decl_guard_leave)
  have 1: "snd (if_guard A' init e body els w) = (if A' \<or> b then snd (e w2) else w2)" for A'
    using assms(3) by (simp add: i leave_scope_ctor split: prod.split outcome.split)
  have 2: "snd (decl_guard A' init e rest w) = (if A' \<or> b then snd (e v2) else v2)" for A'
    using assms(5) by (simp add: d leave_scope_ctor split: prod.split outcome.split)
  have 3: "if_guard A init (addr L END) body els w = (x, if A \<or> b then ImGui_void L END [] w2 else w2)"
    using assms(3) by (simp add: i leave_scope_ctor addr_def)
  have 4: "decl_guard A init (addr L END) rest w = (y, if A \<or> b then ImGui_void L END [] v2 else v2)"
    using assms(5) by (simp add: d leave_scope_ctor addr_def)
  have 5: "snd (IMGUI_SUGAR_SCOPED_BOOL GBEGIN e A gargs body els w) =
      (if A \<or> b then snd (e w2) else w2)" if "GBEGIN gargs = init"
    using that by (simp add: IMGUI_SUGAR_SCOPED_BOOL_def 1)
  have 6: "snd (IMGUI_SUGAR_SCOPED_BOOL_0 init e A body els w) = (if A \<or> b then snd (e w2) else w2)"
    by (simp add: IMGUI_SUGAR_SCOPED_BOOL_0_def 1)
  have 7: "snd (IMGUI_SUGAR_SCOPED_VOID_N GVOID e gargs body els w) = snd (e w2)"
    if "IMGUI_SUGAR_ES GVOID gargs = init"
    using that by (simp add: IMGUI_SUGAR_SCOPED_VOID_N_def 1)
  have 8: "snd (IMGUI_SUGAR_SCOPED_VOID_0 GVOID0 e body els w) = snd (e w2)"
    if "IMGUI_SUGAR_ES_0 GVOID0 = init"
    using that by (simp add: IMGUI_SUGAR_SCOPED_VOID_0_def 1)
  have 9: "snd (IMGUI_SUGAR_PARENT_SCOPED_VOID_N GVOID e gargs rest w) = snd (e v2)"
    if "IMGUI_SUGAR_ES GVOID gargs = init"
    using that by (simp add: IMGUI_SUGAR_PARENT_SCOPED_VOID_N_def 2)
  have 10: "calls (snd (m args body els w)) = calls w2 @ [Call END []]"
    if r: "(m, BEGIN, END) \<in> set (closes_always L)" and o: "BEGIN args = init"
  proof -
    have bw: "BEGIN args w = (b, w1)"
      using o assms(1) by simp
    from bool_macro_run [where BEGIN = BEGIN and args = args and w = w and b = b and ?w1.0 = w1
        and body = body and els = els and x = x and ?w2.0 = w2 and m = m and END = END and L = L,
        OF bw assms(2,3), THEN conjunct1, THEN mp, OF r]
    show ?thesis by (simp add: ImGui_void_calls)
  qed
  have 11: "calls (snd (m args body els w)) = calls w2 @ (if b then [Call END []] else [])"
    if r: "(m, BEGIN, END) \<in> set (closes_if_open L)" and o: "BEGIN args = init"
  proof -
    have bw: "BEGIN args w = (b, w1)"
      using o assms(1) by simp
    from bool_macro_run [where BEGIN = BEGIN and args = args and w = w and b = b and ?w1.0 = w1
        and body = body and els = els and x = x and ?w2.0 = w2 and m = m and END = END and L = L,
        OF bw assms(2,3), THEN conjunct2, THEN mp, OF r]
    show ?thesis by (simp add: ImGui_void_calls)
  qed
  have es: "b \<and> w1 = PUSH args w" if "IMGUI_SUGAR_ES PUSH args = init"
    using that assms(1) by (auto simp add: IMGUI_SUGAR_ES_def)
  have 12: "calls (snd (n args body els w)) = calls w2 @ [closing]"
    if r: "(n, PUSH, closing) \<in> set (with_void L)" and o: "IMGUI_SUGAR_ES PUSH args = init"
  proof -
    have bw: "body (PUSH args w) = (x, w2)"
      using es [OF o] assms(2) by simp
    from void_macro_run [where blk = body and BEGIN = PUSH and args = args and w = w and x = x
        and ?w2.0 = w2 and m = n and closing = closing and L = L and els = els,
        OF bw assms(3), THEN conjunct1, THEN mp, OF r]
    show ?thesis by (simp add: perform_calls)
  qed
  have 13: "calls (snd (p args rest w)) = calls v2 @ [closing]"
    if r: "(p, PUSH, closing) \<in> set (set_void L)" and o: "IMGUI_SUGAR_ES PUSH args = init"
  proof -
    have bw: "rest (PUSH args w) = (y, v2)"
      using es [OF o] assms(4) by simp
    from void_macro_run [where blk = rest and BEGIN = PUSH and args = args and w = w and x = y
        and ?w2.0 = v2 and p = p and closing = closing and L = L,
        OF bw assms(5), THEN conjunct2, THEN mp, OF r]
    show ?thesis by (simp add: perform_calls)
  qed
  have 14: "calls (snd (with_ButtonColored L r g bl body els w)) =
      calls w2 @ [Call ''PopStyleColor'' [IntLit 3]]"
    if o: "(\<lambda>v. (True, perform_all L (ButtonColored_pushes r g bl) v)) = init"
  proof -
    have "init w = (True, perform_all L (ButtonColored_pushes r g bl) w)"
      using o by auto
    then have bw: "body (perform_all L (ButtonColored_pushes r g bl) w) = (x, w2)"
      using assms(1,2) by simp
    from ButtonColored_run [where body = body and L = L and r = r and g = g and b = bl and w = w
        and x = x and ?w2.0 = w2 and els = els, OF bw assms(3)]
    show ?thesis by (simp add: ImGui_void_calls)
  qed
  show ?thesis
    using 1 [of A] 2 [of A] 3 4 5 6 7 8 9 10 11 12 13 14
    by (simp add: ImGui_void_calls)
qed

theorem closing_call_once_per_scope_witness:
  "calls (snd (with_Menu open_ui [Caller 1] returning skip start)) =
     [Call ''BeginMenu'' [Caller 1], Call ''Text'' [], Call ''EndMenu'' []]
   \<and> calls (snd (with_Window closed_ui [Caller 1] skip returning start)) =
     [Call ''Begin'' [Caller 1], Call ''Text'' [], Call ''End'' []]
   \<and> calls (snd (set_Font open_ui [Caller 2] returning start)) =
     [Call ''PushFont'' [Caller 2], Call ''Text'' [], Call ''PopFont'' []]
   \<and> calls (snd (IMGUI_SUGAR_SCOPED_BOOL (ImGui closed_ui ''Begin'') (addr closed_ui ''End'') False
        [Caller 1] skip returning start)) =
     [Call ''Begin'' [Caller 1], Call ''Text'' []]"
proof -
  let ?m1 = "\<lparr>ctx = (), calls = [Call ''BeginMenu'' [Caller 1]]\<rparr> :: (unit, nat) world"
  let ?m2 = "\<lparr>ctx = (), calls = [Call ''BeginMenu'' [Caller 1], Call ''Text'' []]\<rparr> :: (unit, nat) world"
  let ?b1 = "\<lparr>ctx = (), calls = [Call ''Begin'' [Caller 1]]\<rparr> :: (unit, nat) world"
  let ?b2 = "\<lparr>ctx = (), calls = [Call ''Begin'' [Caller 1], Call ''Text'' []]\<rparr> :: (unit, nat) world"
  let ?f1 = "\<lparr>ctx = (), calls = [Call ''PushFont'' [Caller 2]]\<rparr> :: (unit, nat) world"
  let ?f2 = "\<lparr>ctx = (), calls = [Call ''PushFont'' [Caller 2], Call ''Text'' []]\<rparr> :: (unit, nat) world"
  have n: "Return \<noteq> Terminate" by simp
  have ret: "returning \<lparr>ctx = (), calls = cs\<rparr> = (Return, \<lparr>ctx = (), calls = cs @ [Call ''Text'' []]\<rparr>)" for cs
    by (simp add: returning_def ImGui_void_start open_ui_def)
  have a: "ImGui open_ui ''BeginMenu'' [Caller 1] start = (True, ?m1)"
    by (simp add: ImGui_def open_ui_def start_def)
  have b: "(if True then returning ?m1 else skip ?m1) = (Return, ?m2)"
    by (simp add: ret)
  have c: "returning ?m1 = (Return, ?m2)"
    by (simp add: ret)
  have r1: "(with_Menu open_ui, ImGui open_ui ''BeginMenu'', ''EndMenu'') \<in> set (closes_if_open open_ui)"
    by (simp add: closes_if_open_def)
  note t1 = closing_call_once_per_scope [where init = "ImGui open_ui ''BeginMenu'' [Caller 1]"
      and w = start and b = True and ?w1.0 = ?m1 and body = returning and els = skip and x = Return
      and ?w2.0 = ?m2 and rest = returning and y = Return and ?v2.0 = ?m2 and L = open_ui
      and m = "with_Menu open_ui" and BEGIN = "ImGui open_ui ''BeginMenu''" and END = "''EndMenu''"
      and args = "[Caller 1]", OF a b n c n]
  have 1: "calls (snd (with_Menu open_ui [Caller 1] returning skip start)) =
      calls ?m2 @ (if True then [Call ''EndMenu'' []] else [])"
    using t1 [THEN conjunct2, THEN conjunct2, THEN conjunct2, THEN conjunct2, THEN conjunct2,
        THEN conjunct2, THEN conjunct2, THEN conjunct2, THEN conjunct2, THEN conjunct2,
        THEN conjunct2, THEN conjunct2, THEN conjunct1, THEN mp, OF r1, THEN mp, OF refl] .
  have a': "ImGui closed_ui ''Begin'' [Caller 1] start = (False, ?b1)"
    by (simp add: ImGui_def closed_ui_def start_def)
  have b': "(if False then skip ?b1 else returning ?b1) = (Return, ?b2)"
    by (simp add: ret)
  have c': "returning ?b1 = (Return, ?b2)"
    by (simp add: ret)
  have r2: "(with_Window closed_ui, ImGui closed_ui ''Begin'', ''End'') \<in> set (closes_always closed_ui)"
    by (simp add: closes_always_def)
  note t2 = closing_call_once_per_scope [where init = "ImGui closed_ui ''Begin'' [Caller 1]"
      and w = start and b = False and ?w1.0 = ?b1 and body = skip and els = returning and x = Return
      and ?w2.0 = ?b2 and rest = returning and y = Return and ?v2.0 = ?b2 and L = closed_ui
      and m = "with_Window closed_ui" and BEGIN = "ImGui closed_ui ''Begin''" and END = "''End''"
      and args = "[Caller 1]" and GBEGIN = "ImGui closed_ui ''Begin''" and gargs = "[Caller 1]"
      and e = "addr closed_ui ''End''" and A = False, OF a' b' n c' n]
  have 2: "calls (snd (with_Window closed_ui [Caller 1] skip returning start)) =
      calls ?b2 @ [Call ''End'' []]"
    using t2 [THEN conjunct2, THEN conjunct2, THEN conjunct2, THEN conjunct2, THEN conjunct2,
        THEN conjunct2, THEN conjunct2, THEN conjunct2, THEN conjunct2, THEN conjunct2,
        THEN conjunct2, THEN conjunct1, THEN mp, OF r2, THEN mp, OF refl] .
  have 4: "snd (IMGUI_SUGAR_SCOPED_BOOL (ImGui closed_ui ''Begin'') (addr closed_ui ''End'') False
        [Caller 1] skip returning start) =
      (if False \<or> False then snd (addr closed_ui ''End'' ?b2) else ?b2)"
    using t2 [THEN conjunct2, THEN conjunct2, THEN conjunct2, THEN conjunct2, THEN conjunct2,
        THEN conjunct2, THEN conjunct1, THEN mp, OF refl] .
  have a'': "IMGUI_SUGAR_ES (ImGui_void open_ui ''PushFont'') [Caller 2] start = (True, ?f1)"
    by (simp add: IMGUI_SUGAR_ES_def ImGui_void_start open_ui_def start_def)
  have b'': "(if True then returning ?f1 else skip ?f1) = (Return, ?f2)"
    by (simp add: ret)
  have c'': "returning ?f1 = (Return, ?f2)"
    by (simp add: ret)
  have r3: "(set_Font open_ui, ImGui_void open_ui ''PushFont'', Call ''PopFont'' []) \<in> set (set_void open_ui)"
    by (simp add: set_void_def)
  note t3 = closing_call_once_per_scope
      [where init = "IMGUI_SUGAR_ES (ImGui_void open_ui ''PushFont'') [Caller 2]"
      and w = start and b = True and ?w1.0 = ?f1 and body = returning and els = skip and x = Return
      and ?w2.0 = ?f2 and rest = returning and y = Return and ?v2.0 = ?f2 and L = open_ui
      and p = "set_Font open_ui" and PUSH = "ImGui_void open_ui ''PushFont''"
      and closing = "Call ''PopFont'' []" and args = "[Caller 2]", OF a'' b'' n c'' n]
  have 3: "calls (snd (set_Font open_ui [Caller 2] returning start)) = calls ?f2 @ [Call ''PopFont'' []]"
    using t3 [THEN conjunct2, THEN conjunct2, THEN conjunct2, THEN conjunct2, THEN conjunct2,
        THEN conjunct2, THEN conjunct2, THEN conjunct2, THEN conjunct2, THEN conjunct2,
        THEN conjunct2, THEN conjunct2, THEN conjunct2, THEN conjunct2, THEN conjunct1,
        THEN mp, OF r3, THEN mp, OF refl] .
  show ?thesis
    unfolding 1 2 3 4 by simp
qed

section \<open>The macros of the DSL\<close>




text \<open>
  C8. Let the begin function of a bool-returning macro return \<open>b\<close> and the block that
  then runs be left in any way that leaves it. For \<open>with_Window\<close>, \<open>with_Child\<close> and
  \<open>with_ChildFrame\<close> the end function is then called whatever \<open>b\<close> is, also when it is
  false; for each of the other twenty bool-returning macros the end function is called
  when \<open>b\<close> is true and no call is made when it is false.
\<close>

theorem end_unconditional_or_if_open:
  assumes "BEGIN args w = (b, w1)"
    and "(if b then body w1 else els w1) = (x, w2)" and "x \<noteq> Terminate"
  shows "((m, BEGIN, END) \<in> set (closes_always L) \<longrightarrow>
            m args body els w = (x, ImGui_void L END [] w2))
       \<and> ((m, BEGIN, END) \<in> set (closes_if_open L) \<longrightarrow>
            m args body els w = (x, if b then ImGui_void L END [] w2 else w2))"
proof (intro conjI impI)
  assume "(m, BEGIN, END) \<in> set (closes_always L)"
  then consider "m = with_Window L" "BEGIN = ImGui L ''Begin''" "END = ''End''"
    | "m = with_Child L" "BEGIN = ImGui L ''BeginChild''" "END = ''EndChild''"
    | "m = with_ChildFrame L" "BEGIN = ImGui L ''BeginChildFrame''" "END = ''EndChildFrame''"
    by (auto simp add: closes_always_def)
  then show "m args body els w = (x, ImGui_void L END [] w2)"
  proof cases
    case 1
    with assms show ?thesis by (simp add: with_Window_def scoped_bool)
  next
    case 2
    with assms show ?thesis by (simp add: with_Child_def scoped_bool)
  next
    case 3
    with assms show ?thesis by (simp add: with_ChildFrame_def scoped_bool)
  qed
next
  assume "(m, BEGIN, END) \<in> set (closes_if_open L)"
  then have "(\<exists>B. m = IMGUI_SUGAR_SCOPED_BOOL (ImGui L B) (addr L END) False \<and> BEGIN = ImGui L B)
     \<or> (\<exists>B. m = (\<lambda>args. IMGUI_SUGAR_SCOPED_BOOL_0 B (addr L END) False) \<and> BEGIN = (\<lambda>args. B))"
    unfolding closes_if_open_def with_Combo_def with_ListBox_def with_Menu_def with_Popup_def
      with_PopupModal_def with_PopupContextItem_def with_PopupContextWindow_def
      with_PopupContextVoid_def with_Table_def with_TabBar_def with_TabItem_def
      with_DragDropSource_def with_TreeNode_def with_TreeNodeV_def with_TreeNodeEx_def
      with_TreeNodeExV_def with_TooltipOnHover_def with_DragDropTarget_def
      with_MainMenuBar_def with_MenuBar_def
    apply simp
    apply (elim disjE conjE)
    apply blast+
    done
  then show "m args body els w = (x, if b then ImGui_void L END [] w2 else w2)"
  proof (elim disjE exE conjE)
    fix B assume "m = IMGUI_SUGAR_SCOPED_BOOL (ImGui L B) (addr L END) False" "BEGIN = ImGui L B"
    with assms show ?thesis by (simp add: scoped_bool)
  next
    fix B
    assume "m = (\<lambda>args. IMGUI_SUGAR_SCOPED_BOOL_0 B (addr L END) False)" "BEGIN = (\<lambda>args. B)"
    with assms show ?thesis by (simp add: scoped_bool_0)
  qed
qed

theorem end_unconditional_or_if_open_witness:
  "with_Window closed_ui [Caller 1] returning skip start =
     (Normal, \<lparr>ctx = (), calls = [Call ''Begin'' [Caller 1], Call ''End'' []]\<rparr>)
   \<and> with_Menu closed_ui [Caller 1] returning skip start =
     (Normal, \<lparr>ctx = (), calls = [Call ''BeginMenu'' [Caller 1]]\<rparr>)"
proof -
  let ?w1 = "\<lparr>ctx = (), calls = [Call ''Begin'' [Caller 1]]\<rparr> :: (unit, nat) world"
  let ?v1 = "\<lparr>ctx = (), calls = [Call ''BeginMenu'' [Caller 1]]\<rparr> :: (unit, nat) world"
  have n: "Normal \<noteq> Terminate" by simp
  have a: "ImGui closed_ui ''Begin'' [Caller 1] start = (False, ?w1)"
    by (simp add: ImGui_def closed_ui_def start_def)
  have b: "(if False then returning ?w1 else skip ?w1) = (Normal, ?w1)"
    by (simp add: skip_def)
  have m: "(with_Window closed_ui, ImGui closed_ui ''Begin'', ''End'') \<in> set (closes_always closed_ui)"
    by (simp add: closes_always_def)
  have 1: "with_Window closed_ui [Caller 1] returning skip start =
      (Normal, ImGui_void closed_ui ''End'' [] ?w1)"
    using end_unconditional_or_if_open [where BEGIN = "ImGui closed_ui ''Begin''"
        and args = "[Caller 1]" and w = start and b = False and ?w1.0 = ?w1 and body = returning
        and els = skip and x = Normal and ?w2.0 = ?w1 and m = "with_Window closed_ui"
        and END = "''End''" and L = closed_ui, OF a b n, THEN conjunct1, THEN mp, OF m] .
  have a': "ImGui closed_ui ''BeginMenu'' [Caller 1] start = (False, ?v1)"
    by (simp add: ImGui_def closed_ui_def start_def)
  have b': "(if False then returning ?v1 else skip ?v1) = (Normal, ?v1)"
    by (simp add: skip_def)
  have m': "(with_Menu closed_ui, ImGui closed_ui ''BeginMenu'', ''EndMenu'') \<in> set (closes_if_open closed_ui)"
    by (simp add: closes_if_open_def)
  have 2: "with_Menu closed_ui [Caller 1] returning skip start =
      (Normal, if False then ImGui_void closed_ui ''EndMenu'' [] ?v1 else ?v1)"
    using end_unconditional_or_if_open [where BEGIN = "ImGui closed_ui ''BeginMenu''"
        and args = "[Caller 1]" and w = start and b = False and ?w1.0 = ?v1 and body = returning
        and els = skip and x = Normal and ?w2.0 = ?v1 and m = "with_Menu closed_ui"
        and END = "''EndMenu''" and L = closed_ui, OF a' b' n, THEN conjunct2, THEN mp, OF m'] .
  show ?thesis
    unfolding 1 2 by (simp add: ImGui_void_start closed_ui_def)
qed

text \<open>
  C9. The expression statement always yields true, so a guard made from it has the state
  true. For every macro on a void-returning begin function, the block (for a \<open>set_\<close>
  macro: the rest of the enclosing block) runs right after the begin call, the \<open>else\<close>
  part plays no role, and when the block is left the closing call is made.
\<close>

theorem void_opening_always_true:
  assumes "blk (BEGIN args w) = (x, w2)" and "x \<noteq> Terminate"
  shows "fst (IMGUI_SUGAR_ES FN args v) \<and> fst (IMGUI_SUGAR_ES_0 FN0 v)
       \<and> m_state (BooleanGuard_ctor True (fst (IMGUI_SUGAR_ES FN args v)) e)
       \<and> m_state (BooleanGuard_ctor True (fst (IMGUI_SUGAR_ES_0 FN0 v)) e)
       \<and> ((m, BEGIN, closing) \<in> set (with_void L) \<longrightarrow>
            m args blk els w = (x, perform L closing w2))
       \<and> ((p, BEGIN, closing) \<in> set (set_void L) \<longrightarrow>
            p args blk w = (x, perform L closing w2))"
proof (intro conjI impI)
  assume "(m, BEGIN, closing) \<in> set (with_void L)"
  from with_void_rows [OF this] show "m args blk els w = (x, perform L closing w2)"
  proof (elim disjE exE conjE)
    fix B E
    assume r: "m = IMGUI_SUGAR_SCOPED_VOID_N (ImGui_void L B) (addr L E)"
      "BEGIN = ImGui_void L B" "closing = Call E []"
    have "IMGUI_SUGAR_SCOPED_VOID_N (ImGui_void L B) (addr L E) args blk els w =
        (x, perform L (Call E []) w2)"
      using assms(1) unfolding r(2) by (rule scoped_void_n [OF _ assms(2) perform_addr])
    then show ?thesis by (simp only: r)
  next
    fix B E
    assume r: "m = (\<lambda>args. IMGUI_SUGAR_SCOPED_VOID_0 (ImGui_void L B []) (addr L E))"
      "BEGIN = (\<lambda>args. ImGui_void L B [])" "closing = Call E []"
    have "IMGUI_SUGAR_SCOPED_VOID_0 (ImGui_void L B []) (addr L E) blk els w =
        (x, perform L (Call E []) w2)"
      using assms(1) unfolding r(2) by (rule scoped_void_0 [OF _ assms(2) perform_addr])
    then show ?thesis by (simp only: r)
  next
    fix B
    assume r: "m = IMGUI_SUGAR_SCOPED_VOID_N (ImGui_void L B) (PopStyleColor L)"
      "BEGIN = ImGui_void L B" "closing = Call ''PopStyleColor'' [IntLit 1]"
    have "IMGUI_SUGAR_SCOPED_VOID_N (ImGui_void L B) (PopStyleColor L) args blk els w =
        (x, perform L (Call ''PopStyleColor'' [IntLit 1]) w2)"
      using assms(1) unfolding r(2) by (rule scoped_void_n [OF _ assms(2) perform_PopStyleColor])
    then show ?thesis by (simp only: r)
  next
    fix B
    assume r: "m = IMGUI_SUGAR_SCOPED_VOID_N (ImGui_void L B) (PopStyleVar L)"
      "BEGIN = ImGui_void L B" "closing = Call ''PopStyleVar'' [IntLit 1]"
    have "IMGUI_SUGAR_SCOPED_VOID_N (ImGui_void L B) (PopStyleVar L) args blk els w =
        (x, perform L (Call ''PopStyleVar'' [IntLit 1]) w2)"
      using assms(1) unfolding r(2) by (rule scoped_void_n [OF _ assms(2) perform_PopStyleVar])
    then show ?thesis by (simp only: r)
  qed
next
  assume "(p, BEGIN, closing) \<in> set (set_void L)"
  from set_void_rows [OF this] show "p args blk w = (x, perform L closing w2)"
  proof (elim disjE exE conjE)
    fix B E
    assume r: "p = IMGUI_SUGAR_PARENT_SCOPED_VOID_N (ImGui_void L B) (addr L E)"
      "BEGIN = ImGui_void L B" "closing = Call E []"
    have "IMGUI_SUGAR_PARENT_SCOPED_VOID_N (ImGui_void L B) (addr L E) args blk w =
        (x, perform L (Call E []) w2)"
      using assms(1) unfolding r(2) by (rule parent_scoped_void_n [OF _ assms(2) perform_addr])
    then show ?thesis by (simp only: r)
  next
    fix B
    assume r: "p = IMGUI_SUGAR_PARENT_SCOPED_VOID_N (ImGui_void L B) (PopStyleColor L)"
      "BEGIN = ImGui_void L B" "closing = Call ''PopStyleColor'' [IntLit 1]"
    have "IMGUI_SUGAR_PARENT_SCOPED_VOID_N (ImGui_void L B) (PopStyleColor L) args blk w =
        (x, perform L (Call ''PopStyleColor'' [IntLit 1]) w2)"
      using assms(1) unfolding r(2)
      by (rule parent_scoped_void_n [OF _ assms(2) perform_PopStyleColor])
    then show ?thesis by (simp only: r)
  next
    fix B
    assume r: "p = IMGUI_SUGAR_PARENT_SCOPED_VOID_N (ImGui_void L B) (PopStyleVar L)"
      "BEGIN = ImGui_void L B" "closing = Call ''PopStyleVar'' [IntLit 1]"
    have "IMGUI_SUGAR_PARENT_SCOPED_VOID_N (ImGui_void L B) (PopStyleVar L) args blk w =
        (x, perform L (Call ''PopStyleVar'' [IntLit 1]) w2)"
      using assms(1) unfolding r(2)
      by (rule parent_scoped_void_n [OF _ assms(2) perform_PopStyleVar])
    then show ?thesis by (simp only: r)
  qed
qed (simp_all add: IMGUI_SUGAR_ES_def IMGUI_SUGAR_ES_0_def BooleanGuard_ctor_def)

theorem void_opening_always_true_witness:
  "with_Font open_ui [Caller 2] returning skip start =
     (Return, \<lparr>ctx = (), calls = [Call ''PushFont'' [Caller 2], Call ''Text'' [], Call ''PopFont'' []]\<rparr>)
   \<and> set_Font open_ui [Caller 2] returning start =
     (Return, \<lparr>ctx = (), calls = [Call ''PushFont'' [Caller 2], Call ''Text'' [], Call ''PopFont'' []]\<rparr>)"
proof -
  let ?w2 = "\<lparr>ctx = (), calls = [Call ''PushFont'' [Caller 2], Call ''Text'' []]\<rparr> :: (unit, nat) world"
  have n: "Return \<noteq> Terminate" by simp
  have a: "returning (ImGui_void open_ui ''PushFont'' [Caller 2] start) = (Return, ?w2)"
    by (simp add: returning_def start_def ImGui_void_start open_ui_def)
  have m: "(with_Font open_ui, ImGui_void open_ui ''PushFont'', Call ''PopFont'' []) \<in> set (with_void open_ui)"
    by (simp add: with_void_def)
  have p: "(set_Font open_ui, ImGui_void open_ui ''PushFont'', Call ''PopFont'' []) \<in> set (set_void open_ui)"
    by (simp add: set_void_def)
  note t = void_opening_always_true [where blk = returning and BEGIN = "ImGui_void open_ui ''PushFont''"
      and args = "[Caller 2]" and w = start and x = Return and ?w2.0 = ?w2
      and m = "with_Font open_ui" and closing = "Call ''PopFont'' []" and L = open_ui
      and p = "set_Font open_ui" and els = skip, OF a n]
  have 1: "with_Font open_ui [Caller 2] returning skip start =
      (Return, perform open_ui (Call ''PopFont'' []) ?w2)"
    using t [THEN conjunct2, THEN conjunct2, THEN conjunct2, THEN conjunct2, THEN conjunct1, THEN mp, OF m] .
  have 2: "set_Font open_ui [Caller 2] returning start =
      (Return, perform open_ui (Call ''PopFont'' []) ?w2)"
    using t [THEN conjunct2, THEN conjunct2, THEN conjunct2, THEN conjunct2, THEN conjunct2, THEN mp, OF p] .
  show ?thesis
    unfolding 1 2 by (simp add: ImGui_void_start open_ui_def)
qed

text \<open>
  C10. \<open>with_ButtonColored(r,g,b)\<close> makes exactly three calls of \<open>PushStyleColor\<close>, for
  the button, the hovered button and the active button, with the colours \<open>{r,g,b,0.5}\<close>,
  \<open>{r,g,b,0.8}\<close> and \<open>{r,g,b,0.7}\<close>; it then runs its block, whatever the \<open>else\<close> part
  is; and when the block is left it makes the one call \<open>PopStyleColor(3)\<close>. The pushes
  add three entries and the pop removes three, so a block that leaves the number of
  pushed colours as it found it makes the whole statement leave it as it found it.
\<close>

theorem with_ButtonColored_three_pushes_three_pops:
  fixes L :: "('s, 'a) library"
  assumes "body (perform_all L (ButtonColored_pushes r g b) w) = (x, w2)" and "x \<noteq> Terminate"
  shows "with_ButtonColored L r g b body els w =
           (x, perform L (Call ''PopStyleColor'' [IntLit 3]) w2)
       \<and> calls (perform_all L (ButtonColored_pushes r g b) w) =
           calls w @ [Call ''PushStyleColor'' [ColIdx ImGuiCol_Button, Vec4 r g b 0.5],
                      Call ''PushStyleColor'' [ColIdx ImGuiCol_ButtonHovered, Vec4 r g b 0.8],
                      Call ''PushStyleColor'' [ColIdx ImGuiCol_ButtonActive, Vec4 r g b 0.7]]
       \<and> style_color_net (calls (perform_all L (ButtonColored_pushes r g b) w)) =
           style_color_net (calls w) + 3
       \<and> calls (snd (with_ButtonColored L r g b body els w)) =
           calls w2 @ [Call ''PopStyleColor'' [IntLit 3]]
       \<and> style_color_net (calls (snd (with_ButtonColored L r g b body els w))) =
           style_color_net (calls w2) - 3
       \<and> (style_color_net (calls w2) =
             style_color_net (calls (perform_all L (ButtonColored_pushes r g b) w)) \<longrightarrow>
           style_color_net (calls (snd (with_ButtonColored L r g b body els w))) =
             style_color_net (calls w))"
proof -
  let ?init = "\<lambda>w. let w1 = ImGui_void L ''PushStyleColor'' [ColIdx ImGuiCol_Button, Vec4 r g b 0.5] w;
        w2 = ImGui_void L ''PushStyleColor'' [ColIdx ImGuiCol_ButtonHovered, Vec4 r g b 0.8] w1;
        w3 = ImGui_void L ''PushStyleColor'' [ColIdx ImGuiCol_ButtonActive, Vec4 r g b 0.7] w2
    in (True, w3)"
  let ?e = "\<lambda>w. (Returned (), ImGui_void L ''PopStyleColor'' [IntLit 3] w)"
  let ?w1 = "perform_all L (ButtonColored_pushes r g b) w"
  have i: "?init w = (True, ?w1)"
    by (rule ButtonColored_init)
  have r: "(if True then body ?w1 else els ?w1) = (x, w2)"
    using assms(1) by simp
  have e: "\<And>v. ?e v = (Returned (), perform L (Call ''PopStyleColor'' [IntLit 3]) v)"
    by simp
  have "if_guard True ?init ?e body els w =
      (x, if True \<or> True then perform L (Call ''PopStyleColor'' [IntLit 3]) w2 else w2)"
    using i r assms(2) e by (rule if_guard_closing)
  then have 1: "with_ButtonColored L r g b body els w =
      (x, perform L (Call ''PopStyleColor'' [IntLit 3]) w2)"
    by (simp add: with_ButtonColored_def)
  have 2: "calls ?w1 = calls w @ ButtonColored_pushes r g b"
    by (rule perform_all_calls)
  have 3: "style_color_net (ButtonColored_pushes r g b) = 3"
    by (simp add: style_color_net_def ButtonColored_pushes_def)
  have 4: "style_color_net [Call ''PopStyleColor'' [IntLit 3] :: 'a call] = - 3"
    by (simp add: style_color_net_def)
  have 5: "calls (snd (with_ButtonColored L r g b body els w)) =
      calls w2 @ [Call ''PopStyleColor'' [IntLit 3]]"
    by (simp add: 1 ImGui_void_calls)
  have 6: "calls ?w1 =
      calls w @ [Call ''PushStyleColor'' [ColIdx ImGuiCol_Button, Vec4 r g b 0.5],
                 Call ''PushStyleColor'' [ColIdx ImGuiCol_ButtonHovered, Vec4 r g b 0.8],
                 Call ''PushStyleColor'' [ColIdx ImGuiCol_ButtonActive, Vec4 r g b 0.7]]"
    unfolding 2 by (simp add: ButtonColored_pushes_def)
  have 7: "style_color_net (calls ?w1) = style_color_net (calls w) + 3"
    unfolding 2 by (simp add: 3 style_color_net_append)
  have 8: "style_color_net (calls (snd (with_ButtonColored L r g b body els w))) =
      style_color_net (calls w2) - 3"
    unfolding 5 by (simp add: 4 style_color_net_append)
  have 9: "style_color_net (calls (snd (with_ButtonColored L r g b body els w))) =
      style_color_net (calls w)" if "style_color_net (calls w2) = style_color_net (calls ?w1)"
    using that 7 8 by simp
  show ?thesis
    using 1 6 7 5 8 9 by (intro conjI impI)
qed

theorem with_ButtonColored_three_pushes_three_pops_witness:
  "with_ButtonColored open_ui 1 2 3 returning skip start =
     (Return, \<lparr>ctx = (), calls =
        [Call ''PushStyleColor'' [ColIdx ImGuiCol_Button, Vec4 1 2 3 0.5],
         Call ''PushStyleColor'' [ColIdx ImGuiCol_ButtonHovered, Vec4 1 2 3 0.8],
         Call ''PushStyleColor'' [ColIdx ImGuiCol_ButtonActive, Vec4 1 2 3 0.7],
         Call ''Text'' [], Call ''PopStyleColor'' [IntLit 3]]\<rparr>)
   \<and> style_color_net (calls (snd (with_ButtonColored open_ui 1 2 3 returning skip start))) =
       style_color_net (calls start)"
proof -
  let ?w1 = "perform_all open_ui (ButtonColored_pushes 1 2 3) start"
  let ?w2 = "\<lparr>ctx = (), calls =
        [Call ''PushStyleColor'' [ColIdx ImGuiCol_Button, Vec4 1 2 3 0.5],
         Call ''PushStyleColor'' [ColIdx ImGuiCol_ButtonHovered, Vec4 1 2 3 0.8],
         Call ''PushStyleColor'' [ColIdx ImGuiCol_ButtonActive, Vec4 1 2 3 0.7],
         Call ''Text'' []]\<rparr> :: (unit, nat) world"
  have w1: "?w1 = \<lparr>ctx = (), calls =
        [Call ''PushStyleColor'' [ColIdx ImGuiCol_Button, Vec4 1 2 3 0.5],
         Call ''PushStyleColor'' [ColIdx ImGuiCol_ButtonHovered, Vec4 1 2 3 0.8],
         Call ''PushStyleColor'' [ColIdx ImGuiCol_ButtonActive, Vec4 1 2 3 0.7]]\<rparr>"
    by (simp add: ButtonColored_pushes_def start_def ImGui_void_start open_ui_def)
  have a: "returning ?w1 = (Return, ?w2)"
    unfolding w1 by (simp add: returning_def ImGui_void_start open_ui_def)
  have n: "Return \<noteq> Terminate" by simp
  note t = with_ButtonColored_three_pushes_three_pops [where L = open_ui and r = 1 and g = 2
      and b = 3 and w = start and body = returning and x = Return and ?w2.0 = ?w2 and els = skip,
      OF a n]
  have 1: "with_ButtonColored open_ui 1 2 3 returning skip start =
      (Return, perform open_ui (Call ''PopStyleColor'' [IntLit 3]) ?w2)"
    using t [THEN conjunct1] .
  have bal: "style_color_net (calls ?w2) = style_color_net (calls ?w1)"
    unfolding w1 by (simp add: style_color_net_def)
  have 2: "style_color_net (calls (snd (with_ButtonColored open_ui 1 2 3 returning skip start))) =
      style_color_net (calls start)"
    using t [THEN conjunct2, THEN conjunct2, THEN conjunct2, THEN conjunct2, THEN conjunct2,
        THEN mp, OF bal] .
  show ?thesis
    using 2 unfolding 1 by (simp add: ImGui_void_start open_ui_def)
qed

end
